theory Spec2Isabelle
  imports Complex_Main "HOL-Library.Char_ord" "HOL-Library.List_Lexorder"
begin

section \<open>Time values and the calendar of the host\<close>

text \<open>
  A JavaScript \<^verbatim>\<open>Date\<close> holds a time value: the number of milliseconds since
  1970-01-01T00:00:00Z. It is modelled as an \<^typ>\<open>int\<close>; \<^verbatim>\<open>getTime()\<close> is the
  identity. The differences the program divides stay far below \<open>2 ^ 53\<close>, where the
  floating-point quotient and \<^verbatim>\<open>Math.ceil\<close> agree with the exact ceiling.

  The calendar functions follow the abstract operations of ECMA-262 (Day, TimeWithinDay,
  DaysInYear, DayFromYear, YearFromTime, MonthFromTime, DateFromTime, MakeDay, MakeDate).
  The host's time zone is a parameter of everything that reads or writes local time.
\<close>

type_synonym time = int

definition msPerDay :: int where
  "msPerDay = 86400000"

definition Day :: "time \<Rightarrow> int" where
  "Day t = t div msPerDay"

definition TimeWithinDay :: "time \<Rightarrow> int" where
  "TimeWithinDay t = t mod msPerDay"

definition DaysInYear :: "int \<Rightarrow> int" where
  "DaysInYear y =
     (if y mod 4 \<noteq> 0 then 365
      else if y mod 100 \<noteq> 0 then 366
      else if y mod 400 \<noteq> 0 then 365
      else 366)"

definition DayFromYear :: "int \<Rightarrow> int" where
  "DayFromYear y =
     365 * (y - 1970) + (y - 1969) div 4 - (y - 1901) div 100 + (y - 1601) div 400"

text \<open>
  ECMA-262 specifies YearFromTime as the largest year whose first day is not after the
  given day. \<open>YearFromDay\<close> computes it: the average Gregorian year has 146097 / 400 days,
  which gives an estimate that is off by at most one, and two comparisons settle it
  (lemma \<open>YearFromDay_bounds\<close> below proves the specification).
\<close>

definition YearFromDay :: "int \<Rightarrow> int" where
  "YearFromDay d =
     (let y0 = 1970 + (400 * d) div 146097
      in if DayFromYear (y0 + 1) \<le> d then y0 + 1
         else if DayFromYear y0 \<le> d then y0
         else y0 - 1)"

definition YearFromTime :: "time \<Rightarrow> int" where
  "YearFromTime t = YearFromDay (Day t)"

definition InLeapYear :: "time \<Rightarrow> bool" where
  "InLeapYear t = (DaysInYear (YearFromTime t) = 366)"

definition DayWithinYear :: "time \<Rightarrow> int" where
  "DayWithinYear t = Day t - DayFromYear (YearFromTime t)"

text \<open>The day within the year on which month \<open>m\<close> (0 = January) starts.\<close>

definition monthStart :: "int \<Rightarrow> bool \<Rightarrow> int" where
  "monthStart m leap =
     (let l = (if leap then 1 else 0)
      in if m = 0 then 0
         else if m = 1 then 31
         else if m = 2 then 59 + l
         else if m = 3 then 90 + l
         else if m = 4 then 120 + l
         else if m = 5 then 151 + l
         else if m = 6 then 181 + l
         else if m = 7 then 212 + l
         else if m = 8 then 243 + l
         else if m = 9 then 273 + l
         else if m = 10 then 304 + l
         else 334 + l)"

definition MonthFromTime :: "time \<Rightarrow> int" where
  "MonthFromTime t =
     (let d = DayWithinYear t; l = (if InLeapYear t then 1 else 0)
      in if d < 31 then 0
         else if d < 59 + l then 1
         else if d < 90 + l then 2
         else if d < 120 + l then 3
         else if d < 151 + l then 4
         else if d < 181 + l then 5
         else if d < 212 + l then 6
         else if d < 243 + l then 7
         else if d < 273 + l then 8
         else if d < 304 + l then 9
         else if d < 334 + l then 10
         else 11)"

definition DateFromTime :: "time \<Rightarrow> int" where
  "DateFromTime t = DayWithinYear t - monthStart (MonthFromTime t) (InLeapYear t) + 1"

definition MakeDay :: "int \<Rightarrow> int \<Rightarrow> int \<Rightarrow> int" where
  "MakeDay year month date =
     (let ym = year + month div 12; mn = month mod 12
      in DayFromYear ym + monthStart mn (DaysInYear ym = 366) + date - 1)"

definition MakeTime :: "int \<Rightarrow> int \<Rightarrow> int \<Rightarrow> int \<Rightarrow> int" where
  "MakeTime hour minute sec ms = hour * 3600000 + minute * 60000 + sec * 1000 + ms"

definition MakeDate :: "int \<Rightarrow> int \<Rightarrow> time" where
  "MakeDate day tm = day * msPerDay + tm"

text \<open>
  The time zone of the host, as ECMA-262 sees it: the offset of local time from UTC in
  milliseconds at a given UTC instant (\<^verbatim>\<open>LocalTZA(t, true)\<close>) and at a given local time
  value (\<^verbatim>\<open>LocalTZA(t, false)\<close>). Both depend on the instant: where daylight saving is
  observed the offset changes twice a year, and a local time that the change skips is read
  with the offset before the change. A zone without such changes is \<open>fixedZone\<close>.
\<close>

record zone =
  offsetAt :: "time \<Rightarrow> int"
  offsetAtLocal :: "time \<Rightarrow> int"

definition fixedZone :: "int \<Rightarrow> zone" where
  "fixedZone tz = \<lparr>offsetAt = (\<lambda>t. tz), offsetAtLocal = (\<lambda>t. tz)\<rparr>"

definition LocalTime :: "zone \<Rightarrow> time \<Rightarrow> time" where
  "LocalTime z t = t + offsetAt z t"

definition UTC :: "zone \<Rightarrow> time \<Rightarrow> time" where
  "UTC z t = t - offsetAtLocal z t"

text \<open>The methods of \<^verbatim>\<open>Date\<close> the program calls, all in local time.\<close>

definition getFullYear :: "zone \<Rightarrow> time \<Rightarrow> int" where
  "getFullYear z t = YearFromTime (LocalTime z t)"

definition getMonth :: "zone \<Rightarrow> time \<Rightarrow> int" where
  "getMonth z t = MonthFromTime (LocalTime z t)"

definition getDate :: "zone \<Rightarrow> time \<Rightarrow> int" where
  "getDate z t = DateFromTime (LocalTime z t)"

definition setDate :: "zone \<Rightarrow> time \<Rightarrow> int \<Rightarrow> time" where
  "setDate z t dt =
     (let lt = LocalTime z t
      in UTC z (MakeDate (MakeDay (YearFromTime lt) (MonthFromTime lt) dt) (TimeWithinDay lt)))"

definition setMonth :: "zone \<Rightarrow> time \<Rightarrow> int \<Rightarrow> time" where
  "setMonth z t m =
     (let lt = LocalTime z t
      in UTC z (MakeDate (MakeDay (YearFromTime lt) m (DateFromTime lt)) (TimeWithinDay lt)))"

definition setFullYear :: "zone \<Rightarrow> time \<Rightarrow> int \<Rightarrow> time" where
  "setFullYear z t y =
     (let lt = LocalTime z t
      in UTC z (MakeDate (MakeDay y (MonthFromTime lt) (DateFromTime lt)) (TimeWithinDay lt)))"

text \<open>
  \<^verbatim>\<open>new Date(year, month, date, hours, minutes, seconds)\<close>: the components are local
  time, milliseconds are 0, and a year from 0 to 99 means 1900 + year.
\<close>

definition newDate :: "zone \<Rightarrow> int \<Rightarrow> int \<Rightarrow> int \<Rightarrow> int \<Rightarrow> int \<Rightarrow> int \<Rightarrow> time" where
  "newDate z year month date hours minutes seconds =
     (let yr = (if 0 \<le> year \<and> year \<le> 99 then 1900 + year else year)
      in UTC z (MakeDate (MakeDay yr month date) (MakeTime hours minutes seconds 0)))"

section \<open>Status derivation\<close>

text \<open>
  \<^verbatim>\<open>Math.ceil(timeDiff / (1000 * 3600 * 24))\<close> on integers.
\<close>

definition daysDiff :: "time \<Rightarrow> time \<Rightarrow> int" where
  "daysDiff renewalDate now = - ((- (renewalDate - now)) div (1000 * 3600 * 24))"

datatype status = Active | Due | Overdue

text \<open>
  \<^verbatim>\<open>calculateMemberStatus\<close> of the check-in revision (schema version 2). The source
  reads the clock itself (\<^verbatim>\<open>new Date()\<close>); the reading is the second argument.
\<close>

definition calculateMemberStatus :: "time \<Rightarrow> time \<Rightarrow> status" where
  "calculateMemberStatus renewalDate now =
     (let d = daysDiff renewalDate now
      in if d < -7 then Overdue
         else if d \<le> 0 then Due
         else Active)"

datatype status_v1 = Active_v1 | Expired | ExpiringSoon

text \<open>\<^verbatim>\<open>calculateMemberStatus\<close> of the first revision (schema version 1).\<close>

definition calculateMemberStatus_v1 :: "time \<Rightarrow> time \<Rightarrow> status_v1" where
  "calculateMemberStatus_v1 renewalDate now =
     (let d = daysDiff renewalDate now
      in if d < 0 then Expired
         else if d \<le> 7 then ExpiringSoon
         else Active_v1)"

section \<open>Renewal date projection\<close>

datatype subscriptionType = Daily | Weekly | Monthly

definition calculateRenewalDate :: "zone \<Rightarrow> time \<Rightarrow> subscriptionType \<Rightarrow> time" where
  "calculateRenewalDate z startDate st =
     (case st of
        Daily \<Rightarrow> setDate z startDate (getDate z startDate + 1)
      | Weekly \<Rightarrow> setDate z startDate (getDate z startDate + 7)
      | Monthly \<Rightarrow> setMonth z startDate (getMonth z startDate + 1))"

datatype subscriptionType_v1 = Monthly_v1 | Quarterly | Annual

definition calculateRenewalDate_v1 :: "zone \<Rightarrow> time \<Rightarrow> subscriptionType_v1 \<Rightarrow> time" where
  "calculateRenewalDate_v1 z startDate st =
     (case st of
        Monthly_v1 \<Rightarrow> setMonth z startDate (getMonth z startDate + 1)
      | Quarterly \<Rightarrow> setMonth z startDate (getMonth z startDate + 3)
      | Annual \<Rightarrow> setFullYear z startDate (getFullYear z startDate + 1))"

text \<open>
  Vocabulary for stating what "one calendar month later" means on the host calendar:
  the length of a month, the month \<open>n\<close> months after a given one, and the rule by which a
  day of the month that the target month does not have runs over into the following month
  (January 31 plus one month is the 31st day counted from February 1). \<open>localYmd\<close> reads
  the three date fields of a local time value; \<open>ymd\<close> and \<open>timeOfDay\<close> read an instant in
  the local time of the zone.
\<close>

definition DaysInMonth :: "int \<Rightarrow> int \<Rightarrow> int" where
  "DaysInMonth y m =
     (if m = 1 then (if DaysInYear y = 366 then 29 else 28)
      else if m = 3 \<or> m = 5 \<or> m = 8 \<or> m = 10 then 30
      else 31)"

definition addMonths :: "int \<Rightarrow> int \<times> int \<Rightarrow> int \<times> int" where
  "addMonths n ym = (case ym of (y, m) \<Rightarrow> (y + (m + n) div 12, (m + n) mod 12))"

definition rollover :: "int \<times> int \<Rightarrow> int \<Rightarrow> int \<times> int \<times> int" where
  "rollover ym d =
     (case ym of (y, m) \<Rightarrow>
        if d \<le> DaysInMonth y m then (y, m, d)
        else (case addMonths 1 (y, m) of (y', m') \<Rightarrow> (y', m', d - DaysInMonth y m)))"

definition localYmd :: "time \<Rightarrow> int \<times> int \<times> int" where
  "localYmd lt = (YearFromTime lt, MonthFromTime lt, DateFromTime lt)"

definition ymd :: "zone \<Rightarrow> time \<Rightarrow> int \<times> int \<times> int" where
  "ymd z t = (getFullYear z t, getMonth z t, getDate z t)"

definition timeOfDay :: "zone \<Rightarrow> time \<Rightarrow> int" where
  "timeOfDay z t = TimeWithinDay (LocalTime z t)"

section \<open>The store\<close>

text \<open>
  The records of the check-in revision. A stored record carries the key the store assigned
  (\<^verbatim>\<open>++id\<close>); field names shared by several interfaces get the interface as a suffix.
  Amounts are whole currency units.
\<close>

datatype gender = Male | Female | Other

datatype paymentStatus = Paid | Incomplete

datatype paymentMethod = Cash | Mpesa | Card | BankTransfer

record member =
  id_member :: nat
  fullName :: string
  phone :: string
  email :: "string option"
  gender :: gender
  startDate :: time
  subscriptionType :: subscriptionType
  subscriptionFee :: int
  renewalDate :: time
  status :: status
  paymentStatus :: paymentStatus
  lastCheckIn :: "time option"
  createdAt_member :: time
  updatedAt :: time

record payment =
  id_payment :: nat
  memberId_payment :: nat
  amount :: int
  paymentMethod :: paymentMethod
  paymentDate :: time
  renewalPeriod :: string
  subscriptionType_payment :: subscriptionType
  notes_payment :: "string option"
  createdAt_payment :: time

record checkIn =
  id_checkIn :: nat
  memberId_checkIn :: nat
  checkInDate :: time
  createdAt_checkIn :: time

text \<open>
  The database: three tables in key order, the key generators, and the system clock. The
  clock is the sequence of readings that successive \<^verbatim>\<open>new Date()\<close> calls return;
  \<open>ticks\<close> counts the readings taken so far.
\<close>

record db =
  members :: "member list"
  payments :: "payment list"
  checkIns :: "checkIn list"
  nextPaymentId :: nat
  nextCheckInId :: nat
  clock :: "nat \<Rightarrow> time"
  ticks :: nat

definition now :: "db \<Rightarrow> time \<times> db" where
  "now s = (clock s (ticks s), s\<lparr>ticks := Suc (ticks s)\<rparr>)"

text \<open>
  The modifications object of \<^verbatim>\<open>members.update\<close>, with the fields the program ever
  puts there. The store hands the \<^verbatim>\<open>updating\<close> hook its own copy of the modifications
  and merges into the write only what the hook returns. The hook of the program assigns
  \<^verbatim>\<open>updatedAt\<close> and, when a renewal date is among the modifications, a recomputed
  \<^verbatim>\<open>status\<close> to that copy, reading the clock for each, and returns nothing.
\<close>

record memberMods =
  mod_renewalDate :: "time option"
  mod_status :: "status option"
  mod_lastCheckIn :: "time option"
  mod_updatedAt :: "time option"

definition noMods :: memberMods where
  "noMods = \<lparr>mod_renewalDate = None, mod_status = None, mod_lastCheckIn = None,
     mod_updatedAt = None\<rparr>"

definition membersUpdatingHook :: "memberMods \<Rightarrow> db \<Rightarrow> memberMods option \<times> db" where
  "membersUpdatingHook mods s =
     (let (t, s1) = now s;
          mods1 = mods\<lparr>mod_updatedAt := Some t\<rparr>
      in case mod_renewalDate mods1 of
           None \<Rightarrow> (None, s1)
         | Some r \<Rightarrow>
             (let (n, s2) = now s1;
                  mods2 = mods1\<lparr>mod_status := Some (calculateMemberStatus r n)\<rparr>
              in (None, s2)))"

definition mergeMods :: "memberMods \<Rightarrow> memberMods \<Rightarrow> memberMods" where
  "mergeMods mods extra =
     \<lparr>mod_renewalDate =
        (case mod_renewalDate extra of Some r \<Rightarrow> Some r | None \<Rightarrow> mod_renewalDate mods),
      mod_status = (case mod_status extra of Some x \<Rightarrow> Some x | None \<Rightarrow> mod_status mods),
      mod_lastCheckIn =
        (case mod_lastCheckIn extra of Some t \<Rightarrow> Some t | None \<Rightarrow> mod_lastCheckIn mods),
      mod_updatedAt =
        (case mod_updatedAt extra of Some t \<Rightarrow> Some t | None \<Rightarrow> mod_updatedAt mods)\<rparr>"

definition applyMods :: "memberMods \<Rightarrow> member \<Rightarrow> member" where
  "applyMods mods m =
     m\<lparr>renewalDate := (case mod_renewalDate mods of Some r \<Rightarrow> r | None \<Rightarrow> renewalDate m),
       status := (case mod_status mods of Some x \<Rightarrow> x | None \<Rightarrow> status m),
       lastCheckIn := (case mod_lastCheckIn mods of Some t \<Rightarrow> Some t | None \<Rightarrow> lastCheckIn m),
       updatedAt := (case mod_updatedAt mods of Some t \<Rightarrow> t | None \<Rightarrow> updatedAt m)\<rparr>"

definition membersGet :: "db \<Rightarrow> nat \<Rightarrow> member option" where
  "membersGet s key = find (\<lambda>m. id_member m = key) (members s)"

text \<open>
  \<^verbatim>\<open>members.update(key, mods)\<close>: nothing happens, and no hook runs, when the key is
  absent; otherwise the hook runs and the row receives the modifications passed in,
  overridden by what the hook returned.
\<close>

definition membersUpdate :: "nat \<Rightarrow> memberMods \<Rightarrow> db \<Rightarrow> db" where
  "membersUpdate key mods s =
     (case membersGet s key of
        None \<Rightarrow> s
      | Some _ \<Rightarrow>
          (let (returned, s') = membersUpdatingHook mods s;
               mods' = (case returned of None \<Rightarrow> mods | Some extra \<Rightarrow> mergeMods mods extra)
           in s'\<lparr>members := map (\<lambda>m. if id_member m = key then applyMods mods' m else m)
                 (members s')\<rparr>))"

text \<open>
  \<^verbatim>\<open>checkIns.add\<close>: the \<^verbatim>\<open>creating\<close> hook receives the object that is stored and
  overwrites its \<^verbatim>\<open>createdAt\<close> with a reading of the clock; the store assigns the next
  key.
\<close>

definition checkInsAdd :: "checkIn \<Rightarrow> db \<Rightarrow> db" where
  "checkInsAdd obj s =
     (let (t, s1) = now s;
          c = obj\<lparr>id_checkIn := nextCheckInId s1, createdAt_checkIn := t\<rparr>
      in s1\<lparr>checkIns := checkIns s1 @ [c], nextCheckInId := Suc (nextCheckInId s1)\<rparr>)"

text \<open>\<^verbatim>\<open>members.orderBy('fullName').toArray()\<close>: ties stay in key order.\<close>

definition getAllMembers :: "db \<Rightarrow> member list" where
  "getAllMembers s = sort_key fullName (members s)"

section \<open>Check-in\<close>

datatype error = Error string

definition canCheckIn :: "member \<Rightarrow> bool" where
  "canCheckIn m = (status m = Active \<and> paymentStatus m = Paid)"

definition checkInMember :: "nat \<Rightarrow> db \<Rightarrow> (error + unit) \<times> db" where
  "checkInMember memberId s =
     (case membersGet s memberId of
        None \<Rightarrow> (Inl (Error ''Member not found''), s)
      | Some m \<Rightarrow>
          if status m = Overdue \<or> paymentStatus m = Incomplete
          then (Inl (Error
            ''Cannot check in: Member has overdue subscription or incomplete payment''), s)
          else
            (let (t1, s1) = now s;
                 (t2, s2) = now s1;
                 s3 = checkInsAdd \<lparr>id_checkIn = 0, memberId_checkIn = memberId,
                        checkInDate = t1, createdAt_checkIn = t2\<rparr> s2;
                 (t3, s4) = now s3;
                 s5 = membersUpdate memberId (noMods\<lparr>mod_lastCheckIn := Some t3\<rparr>) s4
             in (Inr (), s5)))"

section \<open>Deleting a member\<close>

text \<open>
  \<^verbatim>\<open>handleDeleteMember\<close> of the members page; \<open>confirmed\<close> is the answer to
  \<^verbatim>\<open>window.confirm\<close>.
\<close>

definition handleDeleteMember :: "bool \<Rightarrow> nat \<Rightarrow> db \<Rightarrow> db" where
  "handleDeleteMember confirmed memberId s =
     (if confirmed then
        (let s1 = s\<lparr>members := filter (\<lambda>m. id_member m \<noteq> memberId) (members s)\<rparr>
         in s1\<lparr>payments := filter (\<lambda>p. memberId_payment p \<noteq> memberId) (payments s1)\<rparr>)
      else s)"

section \<open>Monthly revenue\<close>

text \<open>
  \<^verbatim>\<open>where('paymentDate').between(lower, upper)\<close> with Dexie's defaults: the lower bound
  is included, the upper bound is not. (The result comes in index order, which does not
  matter to the sum.)
\<close>

definition between :: "time \<Rightarrow> time \<Rightarrow> payment list \<Rightarrow> payment list" where
  "between lower upper ps = filter (\<lambda>p. lower \<le> paymentDate p \<and> paymentDate p < upper) ps"

definition getMonthlyRevenue :: "zone \<Rightarrow> int \<Rightarrow> int \<Rightarrow> db \<Rightarrow> int" where
  "getMonthlyRevenue z year month s =
     (let startDate = newDate z year (month - 1) 1 0 0 0;
          endDate = newDate z year month 0 23 59 59
      in foldl (\<lambda>total p. total + amount p) 0 (between startDate endDate (payments s)))"

section \<open>Refreshing the stored statuses\<close>

fun updateLoop :: "member list \<Rightarrow> db \<Rightarrow> db" where
  "updateLoop [] s = s"
| "updateLoop (m # ms) s =
     (let (n, s1) = now s;
          newStatus = calculateMemberStatus (renewalDate m) n
      in if status m \<noteq> newStatus
         then updateLoop ms (membersUpdate (id_member m) (noMods\<lparr>mod_status := Some newStatus\<rparr>) s1)
         else updateLoop ms s1)"

definition updateMemberStatuses :: "db \<Rightarrow> db" where
  "updateMemberStatuses s = updateLoop (getAllMembers s) s"

text \<open>What one run does to a member when every reading of the clock is \<open>n\<close>.\<close>

definition refresh :: "time \<Rightarrow> member \<Rightarrow> member" where
  "refresh n m =
     (if status m \<noteq> calculateMemberStatus (renewalDate m) n
      then m\<lparr>status := calculateMemberStatus (renewalDate m) n\<rparr>
      else m)"

text \<open>
  A member with the field that a refresh may write blanked out, and the three tables of a
  database.
\<close>

definition eraseStatus :: "member \<Rightarrow> member" where
  "eraseStatus m = m\<lparr>status := Active\<rparr>"

definition tables :: "db \<Rightarrow> member list \<times> payment list \<times> checkIn list" where
  "tables s = (members s, payments s, checkIns s)"

section \<open>Sample data\<close>

text \<open>
  Records and databases at which the theorems below are evaluated. The clock starts on
  2024-02-03 and advances by one millisecond from one reading to the next. The sample
  member is paid up to 2024-03-01; the due and the overdue member have renewal dates two
  days and more than a month back; the lapsed member has the renewal date of the due one
  and a stored status that has not been refreshed since.
\<close>

definition sampleMember :: member where
  "sampleMember =
     \<lparr>id_member = 1, fullName = ''Amina Otieno'', phone = ''0700111222'', email = None,
      gender = Female, startDate = 1706745600000, subscriptionType = Monthly,
      subscriptionFee = 2000, renewalDate = 1709251200000, status = Active,
      paymentStatus = Paid, lastCheckIn = None, createdAt_member = 1706745600000,
      updatedAt = 1706745600000\<rparr>"

definition dueMember :: member where
  "dueMember = sampleMember\<lparr>status := Due, renewalDate := 1706745600000\<rparr>"

definition overdueMember :: member where
  "overdueMember = sampleMember\<lparr>status := Overdue, renewalDate := 1704067200000\<rparr>"

definition lapsedMember :: member where
  "lapsedMember = sampleMember\<lparr>renewalDate := 1706745600000\<rparr>"

definition otherMember :: member where
  "otherMember = sampleMember\<lparr>id_member := 2, fullName := ''Brian Mwangi'', status := Overdue,
     renewalDate := 1704067200000\<rparr>"

definition samplePayment :: "nat \<Rightarrow> nat \<Rightarrow> time \<Rightarrow> payment" where
  "samplePayment key memberId date =
     \<lparr>id_payment = key, memberId_payment = memberId, amount = 1500, paymentMethod = Mpesa,
      paymentDate = date, renewalPeriod = ''Jan 2024'', subscriptionType_payment = Monthly,
      notes_payment = Some [], createdAt_payment = date\<rparr>"

definition tickingClock :: "nat \<Rightarrow> time" where
  "tickingClock k = 1707000000000 + int k"

text \<open>
  A zone with one daylight-saving change, that of the eastern United States in spring
  2024: five hours behind UTC until 2024-03-10 07:00 UTC (02:00 local), four hours behind
  from then on; the local times from 02:00 to 03:00 of that day do not occur.
\<close>

definition springForwardZone :: zone where
  "springForwardZone =
     \<lparr>offsetAt = (\<lambda>t. if t < 1710054000000 then - 18000000 else - 14400000),
      offsetAtLocal = (\<lambda>t. if t < 1710039600000 then - 18000000 else - 14400000)\<rparr>"

definition sampleDb :: "member list \<Rightarrow> (nat \<Rightarrow> time) \<Rightarrow> db" where
  "sampleDb ms clk =
     \<lparr>members = ms, payments = [], checkIns = [], nextPaymentId = 1, nextCheckInId = 1,
      clock = clk, ticks = 0\<rparr>"

section \<open>The calendar model meets its specification\<close>

text \<open>
  The lemmas of this section establish that \<open>YearFromDay\<close> is the year ECMA-262 specifies,
  that the fields of an instant determine its day number, and that \<open>MakeDay\<close> followed by
  reading the fields back obeys the roll-over rule.
\<close>

lemma div_step:
  fixes x c :: int
  assumes "0 < c"
  shows "(x + 1) div c = x div c + (if (x + 1) mod c = 0 then 1 else 0)"
proof -
  define q r where "q = x div c" and "r = x mod c"
  have x: "x = c * q + r" and r: "0 \<le> r" "r < c"
    using assms by (simp_all add: q_def r_def)
  show ?thesis
  proof (cases "r + 1 = c")
    case True
    then have "x + 1 = c * (q + 1)"
      using x by (simp add: algebra_simps)
    then show ?thesis
      using assms by (simp add: q_def)
  next
    case False
    then have lt: "r + 1 < c"
      using r by simp
    have eq: "x + 1 = c * q + (r + 1)"
      using x by simp
    have "(x + 1) div c = q"
      unfolding eq using lt r assms by simp
    moreover have "(x + 1) mod c = r + 1"
      unfolding eq using lt r assms by simp
    ultimately show ?thesis
      using r by (simp add: q_def)
  qed
qed

lemma mod_shift: "b mod c = 0 \<Longrightarrow> (a - b) mod c = a mod c" for a b c :: int
  using mod_diff_right_eq [of a b c] by simp

lemma DayFromYear_Suc: "DayFromYear (y + 1) = DayFromYear y + DaysInYear y"
proof -
  have a: "(y - 1968) div 4 = (y - 1969) div 4 + (if y mod 4 = 0 then 1 else 0)"
    using div_step [of 4 "y - 1969"] mod_shift [of 1968 4 y] by simp
  have b: "(y - 1900) div 100 = (y - 1901) div 100 + (if y mod 100 = 0 then 1 else 0)"
    using div_step [of 100 "y - 1901"] mod_shift [of 1900 100 y] by simp
  have c: "(y - 1600) div 400 = (y - 1601) div 400 + (if y mod 400 = 0 then 1 else 0)"
    using div_step [of 400 "y - 1601"] mod_shift [of 1600 400 y] by simp
  have d: "y mod 100 = 0 \<Longrightarrow> y mod 4 = 0"
    by presburger
  have e: "y mod 400 = 0 \<Longrightarrow> y mod 100 = 0"
    using mod_mod_cancel [of 100 400 y] by simp
  show ?thesis
    using d e by (auto simp add: DayFromYear_def DaysInYear_def a b c)
qed

lemma DaysInYear_cases: "DaysInYear y = 365 \<or> DaysInYear y = 366"
  by (simp add: DaysInYear_def)

lemma div_bounds:
  fixes x c :: int
  assumes "0 < c"
  shows "c * (x div c) \<le> x" and "x \<le> c * (x div c) + (c - 1)"
proof -
  have "x = c * (x div c) + x mod c"
    by simp
  moreover have "0 \<le> x mod c" "x mod c < c"
    using assms by simp_all
  ultimately show "c * (x div c) \<le> x" and "x \<le> c * (x div c) + (c - 1)"
    by linarith+
qed

lemma DayFromYear_estimate:
  "146097 * y - 287811596 \<le> 400 * DayFromYear y"
  "400 * DayFromYear y \<le> 146097 * y - 287810501"
proof -
  define a b c where "a = (y - 1969) div 4" and "b = (y - 1901) div 100" and "c = (y - 1601) div 400"
  have a: "4 * a \<le> y - 1969" "y - 1969 \<le> 4 * a + 3"
    unfolding a_def using div_bounds [of 4 "y - 1969"] by simp_all
  have b: "100 * b \<le> y - 1901" "y - 1901 \<le> 100 * b + 99"
    unfolding b_def using div_bounds [of 100 "y - 1901"] by simp_all
  have c: "400 * c \<le> y - 1601" "y - 1601 \<le> 400 * c + 399"
    unfolding c_def using div_bounds [of 400 "y - 1601"] by simp_all
  have D: "DayFromYear y = 365 * y - 719050 + a - b + c"
    by (simp add: DayFromYear_def a_def b_def c_def)
  show "146097 * y - 287811596 \<le> 400 * DayFromYear y"
    unfolding D using a b c by (simp only: algebra_simps)
  show "400 * DayFromYear y \<le> 146097 * y - 287810501"
    unfolding D using a b c by (simp only: algebra_simps)
qed

lemma YearFromDay_bounds:
  "DayFromYear (YearFromDay d) \<le> d \<and> d < DayFromYear (YearFromDay d + 1)"
proof -
  define q where "q = (400 * d) div 146097"
  have q: "146097 * q \<le> 400 * d" "400 * d \<le> 146097 * q + 146096"
    unfolding q_def using div_bounds [of 146097 "400 * d"] by simp_all
  have lo: "DayFromYear (1969 + q) \<le> d"
    using DayFromYear_estimate(2) [of "1969 + q"] q by (simp only: algebra_simps)
  have hi: "d < DayFromYear (1972 + q)"
    using DayFromYear_estimate(1) [of "1972 + q"] q by (simp only: algebra_simps)
  show ?thesis
    using lo hi by (auto simp add: YearFromDay_def Let_def q_def [symmetric])
qed

lemma DayFromYear_less_Suc: "DayFromYear y < DayFromYear (y + 1)"
  using DaysInYear_cases [of y] by (auto simp add: DayFromYear_Suc)

lemma DayFromYear_mono_aux: "DayFromYear y \<le> DayFromYear (y + int n)"
proof (induction n)
  case 0
  show ?case by simp
next
  case (Suc n)
  have "DayFromYear (y + int n) < DayFromYear (y + int n + 1)"
    by (rule DayFromYear_less_Suc)
  with Suc show ?case
    by (simp add: add.commute add.left_commute)
qed

lemma DayFromYear_mono: "y \<le> z \<Longrightarrow> DayFromYear y \<le> DayFromYear z"
  using DayFromYear_mono_aux [of y "nat (z - y)"] by simp

lemma YearFromDay_unique:
  assumes "DayFromYear y \<le> d" and "d < DayFromYear (y + 1)"
  shows "YearFromDay d = y"
proof (rule ccontr)
  assume ne: "YearFromDay d \<noteq> y"
  let ?z = "YearFromDay d"
  have zb: "DayFromYear ?z \<le> d" "d < DayFromYear (?z + 1)"
    using YearFromDay_bounds [of d] by simp_all
  from ne consider "?z + 1 \<le> y" | "y + 1 \<le> ?z"
    by linarith
  then show False
  proof cases
    case 1
    then have "DayFromYear (?z + 1) \<le> DayFromYear y"
      by (rule DayFromYear_mono)
    with zb assms show False by linarith
  next
    case 2
    then have "DayFromYear (y + 1) \<le> DayFromYear ?z"
      by (rule DayFromYear_mono)
    with zb assms show False by linarith
  qed
qed

lemma Day_MakeDate:
  assumes "0 \<le> tm" and "tm < msPerDay"
  shows "Day (MakeDate day tm) = day" and "TimeWithinDay (MakeDate day tm) = tm"
  using assms by (simp_all add: Day_def TimeWithinDay_def MakeDate_def msPerDay_def)

lemma MakeDate_Day: "MakeDate (Day t) (TimeWithinDay t) = t"
  by (simp add: Day_def TimeWithinDay_def MakeDate_def)

lemma TimeWithinDay_range: "0 \<le> TimeWithinDay t" "TimeWithinDay t < msPerDay"
  by (simp_all add: TimeWithinDay_def msPerDay_def)

lemma month_cases:
  fixes m :: int
  assumes "0 \<le> m" and "m \<le> 11"
  shows "m = 0 \<or> m = 1 \<or> m = 2 \<or> m = 3 \<or> m = 4 \<or> m = 5 \<or> m = 6 \<or> m = 7 \<or> m = 8
         \<or> m = 9 \<or> m = 10 \<or> m = 11"
proof -
  have "m = 0 \<or> m = 1 \<or> m = 2 \<or> 3 \<le> m"
    using assms by linarith
  moreover have "3 \<le> m \<Longrightarrow> m = 3 \<or> m = 4 \<or> m = 5 \<or> 6 \<le> m"
    by linarith
  moreover have "6 \<le> m \<Longrightarrow> m = 6 \<or> m = 7 \<or> m = 8 \<or> 9 \<le> m"
    by linarith
  moreover have "9 \<le> m \<Longrightarrow> m = 9 \<or> m = 10 \<or> m = 11"
    using assms by linarith
  ultimately show ?thesis
    by blast
qed

lemma monthStart_range:
  assumes "0 \<le> m" and "m \<le> 11"
  shows "0 \<le> monthStart m (DaysInYear y = 366)"
    and "monthStart m (DaysInYear y = 366) + DaysInMonth y m \<le> DaysInYear y"
  using month_cases [OF assms] DaysInYear_cases [of y]
  by (elim disjE; simp add: monthStart_def DaysInMonth_def)+

lemma fields_of_day:
  assumes m: "0 \<le> m" "m \<le> 11"
    and k: "1 \<le> k" "k \<le> DaysInMonth y m"
    and t: "Day t = DayFromYear y + monthStart m (DaysInYear y = 366) + k - 1"
  shows "YearFromTime t = y" and "MonthFromTime t = m" and "DateFromTime t = k"
proof -
  have lo: "DayFromYear y \<le> Day t"
    using monthStart_range(1) [OF m, of y] k t by linarith
  have hi: "Day t < DayFromYear (y + 1)"
    using monthStart_range(2) [OF m, of y] k t by (simp add: DayFromYear_Suc)
  show Y: "YearFromTime t = y"
    unfolding YearFromTime_def using lo hi by (rule YearFromDay_unique)
  have L: "InLeapYear t = (DaysInYear y = 366)"
    by (simp add: InLeapYear_def Y)
  have W: "DayWithinYear t = monthStart m (DaysInYear y = 366) + k - 1"
    by (simp add: DayWithinYear_def Y t)
  show M: "MonthFromTime t = m"
    using month_cases [OF m] k DaysInYear_cases [of y]
    by (elim disjE; simp add: MonthFromTime_def W L monthStart_def DaysInMonth_def)
  show "DateFromTime t = k"
    by (simp add: DateFromTime_def M L W)
qed

lemma MonthFromTime_range: "0 \<le> MonthFromTime t" "MonthFromTime t \<le> 11"
  by (simp_all add: MonthFromTime_def Let_def)

lemma DayWithinYear_range:
  "0 \<le> DayWithinYear t" "DayWithinYear t < DaysInYear (YearFromTime t)"
  using YearFromDay_bounds [of "Day t"]
  by (simp_all add: DayWithinYear_def YearFromTime_def DayFromYear_Suc)

lemma DateFromTime_range:
  "1 \<le> DateFromTime t" "DateFromTime t \<le> DaysInMonth (YearFromTime t) (MonthFromTime t)"
proof -
  define w where "w = DayWithinYear t"
  define y where "y = YearFromTime t"
  have w: "0 \<le> w" "w < DaysInYear y"
    using DayWithinYear_range [of t] by (simp_all add: w_def y_def)
  have L: "InLeapYear t = (DaysInYear y = 366)"
    by (simp add: InLeapYear_def y_def)
  have M: "MonthFromTime t =
      (let l = (if DaysInYear y = 366 then 1 else 0)
       in if w < 31 then 0 else if w < 59 + l then 1 else if w < 90 + l then 2
          else if w < 120 + l then 3 else if w < 151 + l then 4 else if w < 181 + l then 5
          else if w < 212 + l then 6 else if w < 243 + l then 7 else if w < 273 + l then 8
          else if w < 304 + l then 9 else if w < 334 + l then 10 else 11)"
    by (simp add: MonthFromTime_def L w_def Let_def)
  have D: "DateFromTime t = w - monthStart (MonthFromTime t) (DaysInYear y = 366) + 1"
    by (simp add: DateFromTime_def L w_def)
  from DaysInYear_cases [of y] show "1 \<le> DateFromTime t"
  proof
    assume "DaysInYear y = 365"
    then show ?thesis
      unfolding D M using w by (simp add: monthStart_def)
  next
    assume "DaysInYear y = 366"
    then show ?thesis
      unfolding D M using w by (simp add: monthStart_def)
  qed
  from DaysInYear_cases [of y]
  show "DateFromTime t \<le> DaysInMonth (YearFromTime t) (MonthFromTime t)"
  proof
    assume "DaysInYear y = 365"
    then show ?thesis
      unfolding D M y_def [symmetric] using w by (simp add: monthStart_def DaysInMonth_def)
  next
    assume "DaysInYear y = 366"
    then show ?thesis
      unfolding D M y_def [symmetric] using w by (simp add: monthStart_def DaysInMonth_def)
  qed
qed

lemma Day_decomp: "MakeDay (YearFromTime t) (MonthFromTime t) (DateFromTime t + n) = Day t + n"
  using MonthFromTime_range [of t]
  by (simp add: MakeDay_def DateFromTime_def DayWithinYear_def InLeapYear_def Let_def)

lemma DaysInMonth_range: "28 \<le> DaysInMonth y m" "DaysInMonth y m \<le> 31"
  by (simp_all add: DaysInMonth_def)

lemma next_month_start:
  assumes "0 \<le> m" and "m \<le> 11"
  shows "DayFromYear y + monthStart m (DaysInYear y = 366) + DaysInMonth y m =
         (case addMonths 1 (y, m) of (y', m') \<Rightarrow> DayFromYear y' + monthStart m' (DaysInYear y' = 366))"
  using month_cases [OF assms] DaysInYear_cases [of y]
  by (elim disjE; simp add: monthStart_def DaysInMonth_def addMonths_def DayFromYear_Suc)+

lemma addMonths_range:
  assumes "addMonths n (y, m) = (y', m')"
  shows "0 \<le> m'" and "m' \<le> 11"
  using assms by (auto simp add: addMonths_def)

lemma fields_MakeDay:
  assumes d: "1 \<le> d" "d \<le> 31"
    and t: "Day t = MakeDay y m d"
  shows "(YearFromTime t, MonthFromTime t, DateFromTime t) = rollover (addMonths m (y, 0)) d"
proof -
  define ym mn where "ym = y + m div 12" and "mn = m mod 12"
  have A: "addMonths m (y, 0) = (ym, mn)"
    by (simp add: addMonths_def ym_def mn_def)
  have mn: "0 \<le> mn" "mn \<le> 11"
    by (simp_all add: mn_def)
  have T: "Day t = DayFromYear ym + monthStart mn (DaysInYear ym = 366) + d - 1"
    by (simp add: t MakeDay_def ym_def mn_def Let_def)
  show ?thesis
  proof (cases "d \<le> DaysInMonth ym mn")
    case True
    then show ?thesis
      using fields_of_day [OF mn d(1) True T] by (simp add: A rollover_def)
  next
    case False
    obtain y' m' where N: "addMonths 1 (ym, mn) = (y', m')"
      by (cases "addMonths 1 (ym, mn)")
    have m': "0 \<le> m'" "m' \<le> 11"
      using addMonths_range [OF N] by simp_all
    define k where "k = d - DaysInMonth ym mn"
    have k: "1 \<le> k" "k \<le> DaysInMonth y' m'"
      using False d DaysInMonth_range [of ym mn] DaysInMonth_range [of y' m']
      by (simp_all add: k_def)
    have "Day t = DayFromYear y' + monthStart m' (DaysInYear y' = 366) + k - 1"
      using next_month_start [OF mn, of ym] by (simp add: T N k_def)
    from fields_of_day [OF m' k this] show ?thesis
      using False by (simp add: A rollover_def N k_def)
  qed
qed

lemma fixedZone_simps [simp]:
  "LocalTime (fixedZone tz) t = t + tz"
  "UTC (fixedZone tz) t = t - tz"
  by (simp_all add: LocalTime_def UTC_def fixedZone_def)

lemma ymd_localYmd: "ymd z t = localYmd (LocalTime z t)"
  by (simp add: ymd_def localYmd_def getFullYear_def getMonth_def getDate_def)

lemma setDate_local: "setDate z t (getDate z t + n) = UTC z (LocalTime z t + n * msPerDay)"
proof -
  have "MakeDate (Day lt + n) (TimeWithinDay lt) = lt + n * msPerDay" for lt
    using MakeDate_Day [of lt] by (simp add: MakeDate_def algebra_simps)
  then show ?thesis
    by (simp add: setDate_def getDate_def Day_decomp Let_def)
qed

lemma setMonth_local:
  "\<exists>L. setMonth z t (getMonth z t + n) = UTC z L
     \<and> localYmd L = rollover (addMonths n (getFullYear z t, getMonth z t)) (getDate z t)
     \<and> TimeWithinDay L = timeOfDay z t"
proof -
  define lt where "lt = LocalTime z t"
  define r where "r = MakeDate (MakeDay (YearFromTime lt) (MonthFromTime lt + n) (DateFromTime lt))
    (TimeWithinDay lt)"
  have R: "setMonth z t (getMonth z t + n) = UTC z r"
    by (simp add: setMonth_def getMonth_def r_def lt_def Let_def)
  have Dr: "Day r = MakeDay (YearFromTime lt) (MonthFromTime lt + n) (DateFromTime lt)"
    and Tr: "TimeWithinDay r = TimeWithinDay lt"
    unfolding r_def using TimeWithinDay_range [of lt] by (simp_all add: Day_MakeDate)
  have d: "1 \<le> DateFromTime lt" "DateFromTime lt \<le> 31"
    using DateFromTime_range [of lt]
      DaysInMonth_range [of "YearFromTime lt" "MonthFromTime lt"] by linarith+
  have A: "addMonths (MonthFromTime lt + n) (YearFromTime lt, 0) =
      addMonths n (YearFromTime lt, MonthFromTime lt)"
    by (simp add: addMonths_def)
  have "localYmd r = rollover (addMonths n (getFullYear z t, getMonth z t)) (getDate z t)"
    using fields_MakeDay [OF d Dr]
    by (simp add: localYmd_def getFullYear_def getMonth_def getDate_def A lt_def [symmetric])
  moreover have "TimeWithinDay r = timeOfDay z t"
    by (simp add: timeOfDay_def Tr lt_def)
  ultimately show ?thesis
    using R by blast
qed

lemma setFullYear_local:
  "\<exists>L. setFullYear z t y = UTC z L
     \<and> localYmd L = rollover (y, getMonth z t) (getDate z t)
     \<and> TimeWithinDay L = timeOfDay z t"
proof -
  define lt where "lt = LocalTime z t"
  define r where "r = MakeDate (MakeDay y (MonthFromTime lt) (DateFromTime lt)) (TimeWithinDay lt)"
  have R: "setFullYear z t y = UTC z r"
    by (simp add: setFullYear_def r_def lt_def Let_def)
  have Dr: "Day r = MakeDay y (MonthFromTime lt) (DateFromTime lt)"
    and Tr: "TimeWithinDay r = TimeWithinDay lt"
    unfolding r_def using TimeWithinDay_range [of lt] by (simp_all add: Day_MakeDate)
  have d: "1 \<le> DateFromTime lt" "DateFromTime lt \<le> 31"
    using DateFromTime_range [of lt]
      DaysInMonth_range [of "YearFromTime lt" "MonthFromTime lt"] by linarith+
  have A: "addMonths (MonthFromTime lt) (y, 0) = (y, MonthFromTime lt)"
    using MonthFromTime_range [of lt] by (simp add: addMonths_def)
  have "localYmd r = rollover (y, getMonth z t) (getDate z t)"
    using fields_MakeDay [OF d Dr]
    by (simp add: localYmd_def getMonth_def getDate_def A lt_def [symmetric])
  moreover have "TimeWithinDay r = timeOfDay z t"
    by (simp add: timeOfDay_def Tr lt_def)
  ultimately show ?thesis
    using R by blast
qed

lemma fixedZone_read_back:
  assumes "r = UTC (fixedZone tz) L"
  shows "ymd (fixedZone tz) r = localYmd L" and "timeOfDay (fixedZone tz) r = TimeWithinDay L"
  using assms by (simp_all add: ymd_localYmd timeOfDay_def)

section \<open>Status derivation: the buckets\<close>

lemma daysDiff_ceiling_real:
  "daysDiff r n = \<lceil>real_of_int (r - n) / real_of_int msPerDay\<rceil>"
  unfolding daysDiff_def msPerDay_def
  using ceiling_divide_eq_div [of "r - n" 86400000, where ?'a = real] by simp

text \<open>
  Claim C1. For every renewal date \<open>r\<close> and instant \<open>n\<close>, with
  \<open>daysUntil = ceil ((r - n) / 1 day)\<close>, the status of the check-in revision is
  \<open>Overdue\<close> exactly when \<open>daysUntil < -7\<close>, \<open>Due\<close> exactly when \<open>-7 \<le> daysUntil \<le> 0\<close>
  and \<open>Active\<close> exactly when \<open>0 < daysUntil\<close>; a renewal date exactly seven days ago
  (\<open>daysUntil = -7\<close>) and one equal to the current instant (\<open>daysUntil = 0\<close>) are both
  \<open>Due\<close>.
\<close>

theorem calculateMemberStatus_buckets:
  "(let daysUntil = \<lceil>real_of_int (r - n) / real_of_int msPerDay\<rceil>
    in (calculateMemberStatus r n = Overdue \<longleftrightarrow> daysUntil < -7) \<and>
       (calculateMemberStatus r n = Due \<longleftrightarrow> -7 \<le> daysUntil \<and> daysUntil \<le> 0) \<and>
       (calculateMemberStatus r n = Active \<longleftrightarrow> 0 < daysUntil))
   \<and> calculateMemberStatus (n - 7 * msPerDay) n = Due
   \<and> calculateMemberStatus n n = Due"
proof -
  have "daysDiff (n - 7 * msPerDay) n = -7" "daysDiff n n = 0"
    by (simp_all add: daysDiff_def msPerDay_def)
  then show ?thesis
    unfolding daysDiff_ceiling_real [symmetric]
    by (simp add: calculateMemberStatus_def Let_def)
qed

theorem calculateMemberStatus_buckets_witness:
  "calculateMemberStatus 0 (8 * 86400000) = Overdue
   \<and> calculateMemberStatus 0 (7 * 86400000) = Due
   \<and> calculateMemberStatus 0 (7 * 86400000 + 1) = Due
   \<and> calculateMemberStatus 0 1 = Due
   \<and> calculateMemberStatus 1 0 = Active"
  using calculateMemberStatus_buckets [of 0 "8 * 86400000"]
    calculateMemberStatus_buckets [of 0 "7 * 86400000"]
    calculateMemberStatus_buckets [of 0 "7 * 86400000 + 1"]
    calculateMemberStatus_buckets [of 0 1]
    calculateMemberStatus_buckets [of 1 0]
  by (simp add: msPerDay_def Let_def)

text \<open>
  Claim C7. For every renewal date \<open>r\<close> and instant \<open>n\<close>, with
  \<open>daysUntil = ceil ((r - n) / 1 day)\<close>, the status of the first revision is \<open>Expired\<close>
  exactly when \<open>daysUntil < 0\<close>, \<open>ExpiringSoon\<close> exactly when \<open>0 \<le> daysUntil \<le> 7\<close> and
  \<open>Active\<close> exactly when \<open>7 < daysUntil\<close>. Each condition holds exactly when the function
  returns the corresponding one of its three values, so the three ranges cover every value of
  \<open>daysUntil\<close> and no two of them overlap.
\<close>

theorem calculateMemberStatus_v1_buckets:
  "(let daysUntil = \<lceil>real_of_int (r - n) / real_of_int msPerDay\<rceil>
    in (calculateMemberStatus_v1 r n = Expired \<longleftrightarrow> daysUntil < 0) \<and>
       (calculateMemberStatus_v1 r n = ExpiringSoon \<longleftrightarrow> 0 \<le> daysUntil \<and> daysUntil \<le> 7) \<and>
       (calculateMemberStatus_v1 r n = Active_v1 \<longleftrightarrow> 7 < daysUntil))"
  unfolding daysDiff_ceiling_real [symmetric]
  by (simp add: calculateMemberStatus_v1_def Let_def)

theorem calculateMemberStatus_v1_buckets_witness:
  "calculateMemberStatus_v1 0 86400000 = Expired
   \<and> calculateMemberStatus_v1 0 1 = ExpiringSoon
   \<and> calculateMemberStatus_v1 (7 * 86400000) 0 = ExpiringSoon
   \<and> calculateMemberStatus_v1 (7 * 86400000 + 1) 0 = Active_v1"
  using calculateMemberStatus_v1_buckets [of 0 86400000]
    calculateMemberStatus_v1_buckets [of 0 1]
    calculateMemberStatus_v1_buckets [of "7 * 86400000" 0]
    calculateMemberStatus_v1_buckets [of "7 * 86400000 + 1" 0]
  by (simp add: msPerDay_def Let_def)

section \<open>Renewal dates: increments and the registration scenario\<close>

text \<open>Evaluation of the calendar at the dates used below.\<close>

lemma newDate_eval:
  "newDate (fixedZone tz) 2024 0 1 0 0 0 = 1704067200000 - tz"
  "newDate (fixedZone tz) 2024 0 28 0 0 0 = 1706400000000 - tz"
  "newDate (fixedZone tz) 2024 1 1 0 0 0 = 1706745600000 - tz"
  "newDate (fixedZone tz) 2024 1 10 0 0 0 = 1707523200000 - tz"
  "newDate (fixedZone tz) 2024 2 10 0 0 0 = 1710028800000 - tz"
  "newDate (fixedZone tz) 2024 0 31 0 0 0 = 1706659200000 - tz"
  "newDate (fixedZone tz) 2023 11 29 0 0 0 = 1703808000000 - tz"
  by (simp_all add: newDate_def MakeDay_def MakeDate_def MakeTime_def DayFromYear_def
      DaysInYear_def monthStart_def msPerDay_def)

lemmas calendar_eval =
  getFullYear_def getMonth_def getDate_def YearFromTime_def
  YearFromDay_def DayFromYear_def DaysInYear_def InLeapYear_def DayWithinYear_def
  MonthFromTime_def DateFromTime_def monthStart_def Day_def TimeWithinDay_def MakeDay_def
  MakeDate_def msPerDay_def Let_def


lemma fields_eval:
  "YearFromTime 1704067200000 = 2024" "MonthFromTime 1704067200000 = 0"
  "DateFromTime 1704067200000 = 1" "TimeWithinDay 1704067200000 = 0"
  "YearFromTime 1707523200000 = 2024" "MonthFromTime 1707523200000 = 1"
  "DateFromTime 1707523200000 = 10" "TimeWithinDay 1707523200000 = 0"
  by (simp_all add: calendar_eval)

lemma monthly_eval:
  "calculateRenewalDate (fixedZone tz) (1704067200000 - tz) Monthly = 1706745600000 - tz"
  "calculateRenewalDate_v1 (fixedZone tz) (1704067200000 - tz) Monthly_v1 = 1706745600000 - tz"
  "calculateRenewalDate (fixedZone tz) (1707523200000 - tz) Monthly = 1710028800000 - tz"
  "calculateRenewalDate_v1 (fixedZone tz) (1707523200000 - tz) Monthly_v1 = 1710028800000 - tz"
  by (simp_all add: calculateRenewalDate_def calculateRenewalDate_v1_def setMonth_def
      getMonth_def fields_eval MakeDay_def MakeDate_def DayFromYear_def
      DaysInYear_def monthStart_def msPerDay_def)

text \<open>
  Claim C5, as the code has it. For every date \<open>d\<close> and every host zone: the daily renewal
  date is the instant that the zone gives to the local time of \<open>d\<close> plus one day, the weekly
  one to the local time of \<open>d\<close> plus seven days, wherever \<open>d\<close> lies in its month or year;
  it is \<open>d\<close> plus one day (seven days) exactly when the offset of the zone at that local
  time is its offset at \<open>d\<close>, as it always is in a zone of fixed offset. The monthly renewal
  date is the instant that the zone gives to the local time with the time of day of \<open>d\<close> on
  the date that the roll-over rule gives for the same day of the following month; in the
  first revision the monthly renewal is the same, the quarterly one uses the month three
  months on, and the annual one the same month of the following year. In a zone of fixed
  offset the renewal date, read back in local time, has that date and that time of day.
\<close>

theorem calculateRenewalDate_increments:
  "calculateRenewalDate z d Daily = UTC z (LocalTime z d + msPerDay)
   \<and> calculateRenewalDate z d Weekly = UTC z (LocalTime z d + 7 * msPerDay)
   \<and> (offsetAtLocal z (LocalTime z d + msPerDay) = offsetAt z d
        \<longrightarrow> calculateRenewalDate z d Daily = d + msPerDay)
   \<and> (offsetAtLocal z (LocalTime z d + 7 * msPerDay) = offsetAt z d
        \<longrightarrow> calculateRenewalDate z d Weekly = d + 7 * msPerDay)
   \<and> (\<exists>L. calculateRenewalDate z d Monthly = UTC z L
          \<and> localYmd L = rollover (addMonths 1 (getFullYear z d, getMonth z d)) (getDate z d)
          \<and> TimeWithinDay L = timeOfDay z d)
   \<and> (\<exists>L. calculateRenewalDate_v1 z d Monthly_v1 = UTC z L
          \<and> localYmd L = rollover (addMonths 1 (getFullYear z d, getMonth z d)) (getDate z d)
          \<and> TimeWithinDay L = timeOfDay z d)
   \<and> (\<exists>L. calculateRenewalDate_v1 z d Quarterly = UTC z L
          \<and> localYmd L = rollover (addMonths 3 (getFullYear z d, getMonth z d)) (getDate z d)
          \<and> TimeWithinDay L = timeOfDay z d)
   \<and> (\<exists>L. calculateRenewalDate_v1 z d Annual = UTC z L
          \<and> localYmd L = rollover (getFullYear z d + 1, getMonth z d) (getDate z d)
          \<and> TimeWithinDay L = timeOfDay z d)
   \<and> calculateRenewalDate (fixedZone tz) d Daily = d + msPerDay
   \<and> calculateRenewalDate (fixedZone tz) d Weekly = d + 7 * msPerDay
   \<and> ymd (fixedZone tz) (calculateRenewalDate (fixedZone tz) d Monthly) =
       rollover (addMonths 1 (getFullYear (fixedZone tz) d, getMonth (fixedZone tz) d))
         (getDate (fixedZone tz) d)
   \<and> timeOfDay (fixedZone tz) (calculateRenewalDate (fixedZone tz) d Monthly)
       = timeOfDay (fixedZone tz) d
   \<and> ymd (fixedZone tz) (calculateRenewalDate_v1 (fixedZone tz) d Monthly_v1) =
       rollover (addMonths 1 (getFullYear (fixedZone tz) d, getMonth (fixedZone tz) d))
         (getDate (fixedZone tz) d)
   \<and> timeOfDay (fixedZone tz) (calculateRenewalDate_v1 (fixedZone tz) d Monthly_v1)
       = timeOfDay (fixedZone tz) d
   \<and> ymd (fixedZone tz) (calculateRenewalDate_v1 (fixedZone tz) d Quarterly) =
       rollover (addMonths 3 (getFullYear (fixedZone tz) d, getMonth (fixedZone tz) d))
         (getDate (fixedZone tz) d)
   \<and> timeOfDay (fixedZone tz) (calculateRenewalDate_v1 (fixedZone tz) d Quarterly)
       = timeOfDay (fixedZone tz) d
   \<and> ymd (fixedZone tz) (calculateRenewalDate_v1 (fixedZone tz) d Annual) =
       rollover (getFullYear (fixedZone tz) d + 1, getMonth (fixedZone tz) d)
         (getDate (fixedZone tz) d)
   \<and> timeOfDay (fixedZone tz) (calculateRenewalDate_v1 (fixedZone tz) d Annual)
       = timeOfDay (fixedZone tz) d"
proof -
  have daily: "calculateRenewalDate z d Daily = UTC z (LocalTime z d + msPerDay)" for z
    using setDate_local [of z d 1] by (simp add: calculateRenewalDate_def)
  have weekly: "calculateRenewalDate z d Weekly = UTC z (LocalTime z d + 7 * msPerDay)" for z
    using setDate_local [of z d 7] by (simp add: calculateRenewalDate_def)
  have m: "\<exists>L. calculateRenewalDate z d Monthly = UTC z L
      \<and> localYmd L = rollover (addMonths 1 (getFullYear z d, getMonth z d)) (getDate z d)
      \<and> TimeWithinDay L = timeOfDay z d" for z
    using setMonth_local [of z d 1] by (simp add: calculateRenewalDate_def)
  have m1: "\<exists>L. calculateRenewalDate_v1 z d Monthly_v1 = UTC z L
      \<and> localYmd L = rollover (addMonths 1 (getFullYear z d, getMonth z d)) (getDate z d)
      \<and> TimeWithinDay L = timeOfDay z d" for z
    using setMonth_local [of z d 1] by (simp add: calculateRenewalDate_v1_def)
  have q: "\<exists>L. calculateRenewalDate_v1 z d Quarterly = UTC z L
      \<and> localYmd L = rollover (addMonths 3 (getFullYear z d, getMonth z d)) (getDate z d)
      \<and> TimeWithinDay L = timeOfDay z d" for z
    using setMonth_local [of z d 3] by (simp add: calculateRenewalDate_v1_def)
  have a: "\<exists>L. calculateRenewalDate_v1 z d Annual = UTC z L
      \<and> localYmd L = rollover (getFullYear z d + 1, getMonth z d) (getDate z d)
      \<and> TimeWithinDay L = timeOfDay z d" for z
    using setFullYear_local [of z d "getFullYear z d + 1"]
    by (simp add: calculateRenewalDate_v1_def)
  have d3: "offsetAtLocal z (LocalTime z d + msPerDay) = offsetAt z d
      \<longrightarrow> calculateRenewalDate z d Daily = d + msPerDay"
    by (simp add: daily UTC_def LocalTime_def)
  have w3: "offsetAtLocal z (LocalTime z d + 7 * msPerDay) = offsetAt z d
      \<longrightarrow> calculateRenewalDate z d Weekly = d + 7 * msPerDay"
    by (simp add: weekly UTC_def LocalTime_def)
  have fd: "calculateRenewalDate (fixedZone tz) d Daily = d + msPerDay"
    and fw: "calculateRenewalDate (fixedZone tz) d Weekly = d + 7 * msPerDay"
    by (simp_all add: daily weekly)
  from m [of "fixedZone tz"] m1 [of "fixedZone tz"] q [of "fixedZone tz"] a [of "fixedZone tz"]
  have fm: "ymd (fixedZone tz) (calculateRenewalDate (fixedZone tz) d Monthly) =
        rollover (addMonths 1 (getFullYear (fixedZone tz) d, getMonth (fixedZone tz) d))
          (getDate (fixedZone tz) d)
      \<and> timeOfDay (fixedZone tz) (calculateRenewalDate (fixedZone tz) d Monthly)
        = timeOfDay (fixedZone tz) d"
    and fm1: "ymd (fixedZone tz) (calculateRenewalDate_v1 (fixedZone tz) d Monthly_v1) =
        rollover (addMonths 1 (getFullYear (fixedZone tz) d, getMonth (fixedZone tz) d))
          (getDate (fixedZone tz) d)
      \<and> timeOfDay (fixedZone tz) (calculateRenewalDate_v1 (fixedZone tz) d Monthly_v1)
        = timeOfDay (fixedZone tz) d"
    and fq: "ymd (fixedZone tz) (calculateRenewalDate_v1 (fixedZone tz) d Quarterly) =
        rollover (addMonths 3 (getFullYear (fixedZone tz) d, getMonth (fixedZone tz) d))
          (getDate (fixedZone tz) d)
      \<and> timeOfDay (fixedZone tz) (calculateRenewalDate_v1 (fixedZone tz) d Quarterly)
        = timeOfDay (fixedZone tz) d"
    and fa: "ymd (fixedZone tz) (calculateRenewalDate_v1 (fixedZone tz) d Annual) =
        rollover (getFullYear (fixedZone tz) d + 1, getMonth (fixedZone tz) d)
          (getDate (fixedZone tz) d)
      \<and> timeOfDay (fixedZone tz) (calculateRenewalDate_v1 (fixedZone tz) d Annual)
        = timeOfDay (fixedZone tz) d"
    by (auto simp add: fixedZone_read_back)
  from daily weekly d3 w3 m m1 q a fd fw fm fm1 fq fa show ?thesis
    by blast
qed

lemma spring_eval:
  "LocalTime springForwardZone 1709398800000 = 1709380800000"
  "LocalTime springForwardZone 1710003600000 = 1709985600000"
  "offsetAt springForwardZone 1709398800000 = - 18000000"
  "offsetAtLocal springForwardZone 1709467200000 = - 18000000"
  "offsetAtLocal springForwardZone 1709985600000 = - 18000000"
  "UTC springForwardZone 1710072000000 = 1710086400000"
  by (simp_all add: LocalTime_def UTC_def springForwardZone_def)

theorem calculateRenewalDate_increments_witness:
  "offsetAtLocal springForwardZone (LocalTime springForwardZone 1709398800000 + msPerDay)
     = offsetAt springForwardZone 1709398800000
   \<and> calculateRenewalDate springForwardZone 1709398800000 Daily = 1709398800000 + 86400000
   \<and> offsetAtLocal springForwardZone (LocalTime springForwardZone 1709398800000 + 7 * msPerDay)
     = offsetAt springForwardZone 1709398800000
   \<and> calculateRenewalDate springForwardZone 1709398800000 Weekly
     = 1709398800000 + 7 * 86400000
   \<and> calculateRenewalDate (fixedZone 0) (newDate (fixedZone 0) 2023 11 29 0 0 0) Weekly
     = newDate (fixedZone 0) 2023 11 29 0 0 0 + 7 * 86400000
   \<and> ymd (fixedZone 0) (calculateRenewalDate (fixedZone 0) (newDate (fixedZone 0) 2024 0 31 0 0 0)
       Monthly) = (2024, 2, 2)
   \<and> ymd (fixedZone 0) (calculateRenewalDate_v1 (fixedZone 0)
       (newDate (fixedZone 0) 2024 0 31 0 0 0) Quarterly) = (2024, 4, 1)
   \<and> ymd (fixedZone 0) (calculateRenewalDate_v1 (fixedZone 0)
       (newDate (fixedZone 0) 2024 0 31 0 0 0) Annual) = (2025, 0, 31)"
proof -
  have h: "offsetAtLocal springForwardZone (LocalTime springForwardZone 1709398800000 + msPerDay)
      = offsetAt springForwardZone 1709398800000"
    "offsetAtLocal springForwardZone (LocalTime springForwardZone 1709398800000 + 7 * msPerDay)
      = offsetAt springForwardZone 1709398800000"
    by (simp_all add: spring_eval msPerDay_def)
  from calculateRenewalDate_increments [of springForwardZone 1709398800000 0] h
  have "calculateRenewalDate springForwardZone 1709398800000 Daily = 1709398800000 + 86400000"
    and "calculateRenewalDate springForwardZone 1709398800000 Weekly
      = 1709398800000 + 7 * 86400000"
    by (simp_all add: msPerDay_def)
  moreover from calculateRenewalDate_increments
    [of "fixedZone 0" "newDate (fixedZone 0) 2023 11 29 0 0 0" 0]
  have "calculateRenewalDate (fixedZone 0) (newDate (fixedZone 0) 2023 11 29 0 0 0) Weekly
      = newDate (fixedZone 0) 2023 11 29 0 0 0 + 7 * 86400000"
    by (simp add: msPerDay_def)
  moreover from calculateRenewalDate_increments
    [of "fixedZone 0" "newDate (fixedZone 0) 2024 0 31 0 0 0" 0]
  have "ymd (fixedZone 0) (calculateRenewalDate (fixedZone 0)
        (newDate (fixedZone 0) 2024 0 31 0 0 0) Monthly) = (2024, 2, 2)"
    and "ymd (fixedZone 0) (calculateRenewalDate_v1 (fixedZone 0)
        (newDate (fixedZone 0) 2024 0 31 0 0 0) Quarterly) = (2024, 4, 1)"
    and "ymd (fixedZone 0) (calculateRenewalDate_v1 (fixedZone 0)
        (newDate (fixedZone 0) 2024 0 31 0 0 0) Annual) = (2025, 0, 31)"
    by (simp_all add: newDate_eval calendar_eval rollover_def addMonths_def DaysInMonth_def)
  ultimately show ?thesis
    using h by simp
qed

text \<open>
  Claim C5 as stated has the daily renewal date equal to \<open>d\<close> plus one day for every date.
  In the zone with the change of 2024-03-10, noon of 2024-03-09 (17:00 UTC) has the daily
  renewal date noon of 2024-03-10 (16:00 UTC), which is \<open>d\<close> plus 23 hours.
\<close>

theorem calculateRenewalDate_daily_counterexample:
  "ymd springForwardZone 1710003600000 = (2024, 2, 9)
   \<and> timeOfDay springForwardZone 1710003600000 = MakeTime 12 0 0 0
   \<and> calculateRenewalDate springForwardZone 1710003600000 Daily = 1710086400000
   \<and> ymd springForwardZone 1710086400000 = (2024, 2, 10)
   \<and> timeOfDay springForwardZone 1710086400000 = MakeTime 12 0 0 0
   \<and> 1710003600000 + msPerDay = 1710090000000"
proof -
  have "calculateRenewalDate springForwardZone 1710003600000 Daily = 1710086400000"
    using setDate_local [of springForwardZone 1710003600000 1]
    by (simp add: calculateRenewalDate_def spring_eval msPerDay_def)
  moreover have "LocalTime springForwardZone 1710086400000 = 1710072000000"
    by (simp add: LocalTime_def springForwardZone_def)
  moreover have "localYmd 1709985600000 = (2024, 2, 9)" "localYmd 1710072000000 = (2024, 2, 10)"
    "TimeWithinDay 1709985600000 = MakeTime 12 0 0 0"
    "TimeWithinDay 1710072000000 = MakeTime 12 0 0 0"
    by (simp_all add: localYmd_def calendar_eval MakeTime_def)
  ultimately show ?thesis
    by (simp add: ymd_localYmd timeOfDay_def spring_eval msPerDay_def)
qed




section \<open>Check-in: the gate and the effect\<close>

lemma now_simps [simp]:
  "fst (now s) = clock s (ticks s)"
  "snd (now s) = s\<lparr>ticks := Suc (ticks s)\<rparr>"
  by (simp_all add: now_def)

lemma membersGet_frame [simp]:
  "membersGet (s\<lparr>ticks := k\<rparr>) = membersGet s"
  "membersGet (s\<lparr>checkIns := cs\<rparr>) = membersGet s"
  "membersGet (s\<lparr>payments := ps\<rparr>) = membersGet s"
  "membersGet (s\<lparr>nextCheckInId := i\<rparr>) = membersGet s"
  "membersGet (s\<lparr>nextPaymentId := i\<rparr>) = membersGet s"
  by (simp_all add: membersGet_def fun_eq_iff)

lemma find_map_update:
  assumes "find (\<lambda>m. id_member m = key) ms = Some m"
    and "\<And>x. id_member (f x) = id_member x"
  shows "find (\<lambda>m. id_member m = key) (map (\<lambda>x. if id_member x = key then f x else x) ms)
    = Some (f m)"
  using assms by (induction ms) (auto split: if_splits)

lemma id_applyMods [simp]: "id_member (applyMods mods m) = id_member m"
  by (simp add: applyMods_def)

lemma checkInMember_rejects:
  assumes "membersGet s memberId = Some m"
    and "status m = Overdue \<or> paymentStatus m = Incomplete"
  shows "checkInMember memberId s =
    (Inl (Error ''Cannot check in: Member has overdue subscription or incomplete payment''), s)"
  using assms by (auto simp add: checkInMember_def)

lemma checkInMember_accepts:
  assumes "membersGet s memberId = Some m"
    and "status m \<noteq> Overdue" and "paymentStatus m \<noteq> Incomplete"
  shows "fst (checkInMember memberId s) = Inr ()"
    and "checkIns (snd (checkInMember memberId s)) = checkIns s @
      [\<lparr>id_checkIn = nextCheckInId s, memberId_checkIn = memberId,
        checkInDate = clock s (ticks s), createdAt_checkIn = clock s (ticks s + 2)\<rparr>]"
    and "members (snd (checkInMember memberId s)) =
      map (\<lambda>x. if id_member x = memberId
                then x\<lparr>lastCheckIn := Some (clock s (ticks s + 3))\<rparr>
                else x) (members s)"
    and "payments (snd (checkInMember memberId s)) = payments s"
  using assms
  by (simp_all add: checkInMember_def checkInsAdd_def membersUpdate_def membersUpdatingHook_def
      applyMods_def noMods_def split_def Let_def eval_nat_numeral)

lemma sample_eval:
  "membersGet (sampleDb [sampleMember] clk) 1 = Some sampleMember"
  "membersGet (sampleDb [dueMember] clk) 1 = Some dueMember"
  by (simp_all add: membersGet_def sampleDb_def sampleMember_def dueMember_def)

text \<open>
  What the gate of \<open>checkInMember\<close> is: for every stored member it succeeds exactly when the
  member's status is not \<open>Overdue\<close> and its payment status is not \<open>Incomplete\<close>.
\<close>

lemma checkInMember_gate:
  assumes "membersGet s memberId = Some m"
  shows "fst (checkInMember memberId s) = Inr ()
           \<longleftrightarrow> status m \<noteq> Overdue \<and> paymentStatus m \<noteq> Incomplete"
proof (cases "status m = Overdue \<or> paymentStatus m = Incomplete")
  case True
  then show ?thesis
    using checkInMember_rejects [OF assms True] by auto
next
  case False
  then show ?thesis
    using checkInMember_accepts(1) [OF assms] by simp
qed

text \<open>
  Claim C2 says that \<open>checkInMember\<close> succeeds exactly for the members that \<open>canCheckIn\<close>
  accepts, those with status \<open>Active\<close> and payment status \<open>Paid\<close>. The code does not: a stored
  member that is \<open>Due\<close> and \<open>Paid\<close>, whose button \<open>canCheckIn\<close> disables, is checked in by
  \<open>checkInMember\<close>, which appends a check-in record for it.
\<close>

theorem checkInMember_accepts_due_member:
  "membersGet (sampleDb [dueMember] tickingClock) 1 = Some dueMember
   \<and> status dueMember = Due
   \<and> paymentStatus dueMember = Paid
   \<and> \<not> canCheckIn dueMember
   \<and> fst (checkInMember 1 (sampleDb [dueMember] tickingClock)) = Inr ()
   \<and> map memberId_checkIn (checkIns (snd (checkInMember 1 (sampleDb [dueMember] tickingClock))))
       = [1]"
proof -
  have g: "membersGet (sampleDb [dueMember] tickingClock) 1 = Some dueMember"
    by (rule sample_eval(2))
  have c: "\<not> canCheckIn dueMember" "status dueMember \<noteq> Overdue"
    "paymentStatus dueMember \<noteq> Incomplete" "status dueMember = Due"
    "paymentStatus dueMember = Paid"
    by (simp_all add: canCheckIn_def sampleMember_def dueMember_def)
  have e: "checkIns (sampleDb [dueMember] tickingClock) = []"
    by (simp add: sampleDb_def)
  from checkInMember_accepts(1,2) [OF g c(2,3)] c g e show ?thesis
    by simp
qed

text \<open>
  Claim C3, as the code has it. For every stored member whose status is \<open>Overdue\<close> or whose
  payment status is \<open>Incomplete\<close>, \<open>checkInMember\<close> fails and returns the database as it
  was: no check-in record, no change to \<open>lastCheckIn\<close> or to anything else. For every
  eligible member it succeeds, appends exactly one check-in record, dated with the reading
  of the clock taken first, and sets that member's \<open>lastCheckIn\<close> to the reading of the
  clock taken for the update of the member (the fourth reading of the operation); no other
  field of the member, no other member and no payment changes.
\<close>

theorem checkInMember_effect:
  assumes "membersGet s memberId = Some m"
  shows "(status m = Overdue \<or> paymentStatus m = Incomplete \<longrightarrow>
            (\<exists>e. fst (checkInMember memberId s) = Inl e) \<and> snd (checkInMember memberId s) = s)
    \<and> (canCheckIn m \<longrightarrow>
          fst (checkInMember memberId s) = Inr ()
        \<and> checkIns (snd (checkInMember memberId s)) = checkIns s @
            [\<lparr>id_checkIn = nextCheckInId s, memberId_checkIn = memberId,
              checkInDate = clock s (ticks s), createdAt_checkIn = clock s (ticks s + 2)\<rparr>]
        \<and> membersGet (snd (checkInMember memberId s)) memberId =
            Some (m\<lparr>lastCheckIn := Some (clock s (ticks s + 3))\<rparr>)
        \<and> members (snd (checkInMember memberId s)) =
            map (\<lambda>x. if id_member x = memberId
                      then x\<lparr>lastCheckIn := Some (clock s (ticks s + 3))\<rparr>
                      else x) (members s)
        \<and> payments (snd (checkInMember memberId s)) = payments s)"
proof (intro conjI impI)
  assume "status m = Overdue \<or> paymentStatus m = Incomplete"
  from checkInMember_rejects [OF assms this]
  show "\<exists>e. fst (checkInMember memberId s) = Inl e" and "snd (checkInMember memberId s) = s"
    by simp_all
next
  assume "canCheckIn m"
  then have ok: "status m \<noteq> Overdue" "paymentStatus m \<noteq> Incomplete"
    by (simp_all add: canCheckIn_def)
  note acc = checkInMember_accepts [OF assms ok]
  show "fst (checkInMember memberId s) = Inr ()"
    by (rule acc(1))
  show "checkIns (snd (checkInMember memberId s)) = checkIns s @
      [\<lparr>id_checkIn = nextCheckInId s, memberId_checkIn = memberId,
        checkInDate = clock s (ticks s), createdAt_checkIn = clock s (ticks s + 2)\<rparr>]"
    by (rule acc(2))
  show M: "members (snd (checkInMember memberId s)) =
      map (\<lambda>x. if id_member x = memberId
                then x\<lparr>lastCheckIn := Some (clock s (ticks s + 3))\<rparr>
                else x) (members s)"
    by (rule acc(3))
  show "membersGet (snd (checkInMember memberId s)) memberId =
      Some (m\<lparr>lastCheckIn := Some (clock s (ticks s + 3))\<rparr>)"
    unfolding membersGet_def M
    using assms by (intro find_map_update) (simp_all add: membersGet_def)
  show "payments (snd (checkInMember memberId s)) = payments s"
    by (rule acc(4))
qed

theorem checkInMember_effect_witness:
  "membersGet (sampleDb [overdueMember] tickingClock) 1 = Some overdueMember
   \<and> status overdueMember = Overdue
   \<and> snd (checkInMember 1 (sampleDb [overdueMember] tickingClock))
       = sampleDb [overdueMember] tickingClock
   \<and> membersGet (sampleDb [sampleMember] tickingClock) 1 = Some sampleMember
   \<and> canCheckIn sampleMember
   \<and> length (checkIns (snd (checkInMember 1 (sampleDb [sampleMember] tickingClock)))) = 1
   \<and> map_option lastCheckIn
        (membersGet (snd (checkInMember 1 (sampleDb [sampleMember] tickingClock))) 1)
       = Some (Some (tickingClock 3))"
proof -
  have g1: "membersGet (sampleDb [overdueMember] tickingClock) 1 = Some overdueMember"
    by (simp add: membersGet_def sampleDb_def sampleMember_def overdueMember_def)
  have o: "status overdueMember = Overdue"
    by (simp add: overdueMember_def)
  have g2: "membersGet (sampleDb [sampleMember] tickingClock) 1 = Some sampleMember"
    by (rule sample_eval(1))
  have c: "canCheckIn sampleMember"
    by (simp add: canCheckIn_def sampleMember_def)
  have e: "checkIns (sampleDb [sampleMember] tickingClock) = []"
    "ticks (sampleDb [sampleMember] tickingClock) = 0"
    "clock (sampleDb [sampleMember] tickingClock) = tickingClock"
    by (simp_all add: sampleDb_def)
  from checkInMember_effect [OF g1] checkInMember_effect [OF g2] g1 g2 o c e
  show ?thesis
    by simp
qed

text \<open>
  Claim C3 as stated has \<open>lastCheckIn\<close> equal to the timestamp of the check-in record. When
  the clock advances between the two readings, the two differ.
\<close>

theorem checkInMember_lastCheckIn_counterexample:
  "membersGet (sampleDb [sampleMember] tickingClock) 1 = Some sampleMember
   \<and> canCheckIn sampleMember
   \<and> map checkInDate (checkIns (snd (checkInMember 1 (sampleDb [sampleMember] tickingClock))))
       = [1707000000000]
   \<and> map lastCheckIn (members (snd (checkInMember 1 (sampleDb [sampleMember] tickingClock))))
       = [Some 1707000000003]"
proof -
  have g: "membersGet (sampleDb [sampleMember] tickingClock) 1 = Some sampleMember"
    by (rule sample_eval(1))
  have c: "canCheckIn sampleMember" "status sampleMember \<noteq> Overdue"
    "paymentStatus sampleMember \<noteq> Incomplete"
    by (simp_all add: canCheckIn_def sampleMember_def)
  have e: "checkIns (sampleDb [sampleMember] tickingClock) = []"
    "members (sampleDb [sampleMember] tickingClock) = [sampleMember]"
    "ticks (sampleDb [sampleMember] tickingClock) = 0"
    "clock (sampleDb [sampleMember] tickingClock) = tickingClock"
    "id_member sampleMember = 1"
    by (simp_all add: sampleDb_def sampleMember_def)
  from checkInMember_accepts(2,3) [OF g c(2,3)] g c(1) e show ?thesis
    by (simp add: tickingClock_def)
qed

section \<open>Recording a payment: the member write\<close>

text \<open>
  The function \<^verbatim>\<open>onSubmit\<close> of the payments page declares \<^verbatim>\<open>const member\<close> twice in one
  block, so the module that holds it does not load and the function is not modelled. The
  write it attempts on the member is
  \<^verbatim>\<open>members.update(memberId, { renewalDate: calculateRenewalDate(paymentDate, subscriptionType) })\<close>.
  Through the hook this write replaces the renewal date and nothing else: the status the
  hook computes and the \<^verbatim>\<open>updatedAt\<close> it reads go to the hook's copy of the
  modifications, which the store drops.
\<close>

lemma renewalUpdate_members:
  "members (membersUpdate key (noMods\<lparr>mod_renewalDate := Some r\<rparr>) s) =
     map (\<lambda>x. if id_member x = key then x\<lparr>renewalDate := r\<rparr> else x) (members s)"
proof (cases "membersGet s key")
  case None
  then have "\<forall>x\<in>set (members s). id_member x \<noteq> key"
    by (simp add: membersGet_def find_None_iff)
  then have "map (\<lambda>x. if id_member x = key then x\<lparr>renewalDate := r\<rparr> else x) (members s)
      = members s"
    by (intro map_idI) auto
  with None show ?thesis
    by (simp add: membersUpdate_def)
next
  case (Some m)
  then show ?thesis
    by (simp add: membersUpdate_def membersUpdatingHook_def applyMods_def noMods_def split_def
        Let_def)
qed

text \<open>
  Claim C4 says that recording a payment sets the member's renewal date with the status
  recomputed on that write. The overdue member pays on 2024-02-10: the date computed for
  the write is 2024-03-10, from which the status derived at that moment is \<open>Active\<close>; the
  write stores the date, and the stored status is \<open>Overdue\<close> as before.
\<close>

theorem renewal_write_keeps_status:
  "membersGet (sampleDb [overdueMember] tickingClock) 1 = Some overdueMember
   \<and> status overdueMember = Overdue
   \<and> calculateRenewalDate (fixedZone 0) (newDate (fixedZone 0) 2024 1 10 0 0 0)
       (subscriptionType overdueMember) = newDate (fixedZone 0) 2024 2 10 0 0 0
   \<and> members (membersUpdate 1
         (noMods\<lparr>mod_renewalDate := Some (newDate (fixedZone 0) 2024 2 10 0 0 0)\<rparr>)
         (sampleDb [overdueMember] tickingClock))
       = [overdueMember\<lparr>renewalDate := newDate (fixedZone 0) 2024 2 10 0 0 0\<rparr>]
   \<and> status (overdueMember\<lparr>renewalDate := newDate (fixedZone 0) 2024 2 10 0 0 0\<rparr>) = Overdue
   \<and> calculateMemberStatus (newDate (fixedZone 0) 2024 2 10 0 0 0) (tickingClock 1) = Active"
proof -
  have g: "membersGet (sampleDb [overdueMember] tickingClock) 1 = Some overdueMember"
    by (simp add: membersGet_def sampleDb_def sampleMember_def overdueMember_def)
  have o: "status overdueMember = Overdue" "subscriptionType overdueMember = Monthly"
    "id_member overdueMember = 1"
    by (simp_all add: overdueMember_def sampleMember_def)
  have r: "calculateRenewalDate (fixedZone 0) (newDate (fixedZone 0) 2024 1 10 0 0 0) Monthly
      = newDate (fixedZone 0) 2024 2 10 0 0 0"
    using monthly_eval(3) [of 0] by (simp add: newDate_eval)
  have m: "members (sampleDb [overdueMember] tickingClock) = [overdueMember]"
    by (simp add: sampleDb_def)
  have d: "daysDiff 1710028800000 1707000000001 = 36"
    by (simp add: daysDiff_def)
  have a: "calculateMemberStatus (newDate (fixedZone 0) 2024 2 10 0 0 0) (tickingClock 1) = Active"
    by (simp add: newDate_eval calculateMemberStatus_def tickingClock_def d)
  from g o r a show ?thesis
    by (simp add: renewalUpdate_members m)
qed

section \<open>Deleting a member: the cascade\<close>

text \<open>
  Claim C8. After a confirmed deletion of a member, no member with that key is stored and
  no stored payment refers to it; members and payments with other keys stay.
\<close>

theorem handleDeleteMember_cascade:
  "membersGet (handleDeleteMember True memberId s) memberId = None
   \<and> filter (\<lambda>p. memberId_payment p = memberId)
        (payments (handleDeleteMember True memberId s)) = []
   \<and> filter (\<lambda>m. id_member m \<noteq> memberId) (members (handleDeleteMember True memberId s))
       = filter (\<lambda>m. id_member m \<noteq> memberId) (members s)
   \<and> filter (\<lambda>p. memberId_payment p \<noteq> memberId)
        (payments (handleDeleteMember True memberId s))
       = filter (\<lambda>p. memberId_payment p \<noteq> memberId) (payments s)"
  by (simp add: handleDeleteMember_def membersGet_def find_None_iff Let_def)

theorem handleDeleteMember_cascade_witness:
  "membersGet (sampleDb [sampleMember] tickingClock
      \<lparr>payments := [samplePayment 1 1 1704067200000, samplePayment 2 2 1704067200000]\<rparr>) 1
     = Some sampleMember
   \<and> membersGet (handleDeleteMember True 1 (sampleDb [sampleMember] tickingClock
      \<lparr>payments := [samplePayment 1 1 1704067200000, samplePayment 2 2 1704067200000]\<rparr>)) 1
     = None
   \<and> payments (handleDeleteMember True 1 (sampleDb [sampleMember] tickingClock
      \<lparr>payments := [samplePayment 1 1 1704067200000, samplePayment 2 2 1704067200000]\<rparr>))
     = [samplePayment 2 2 1704067200000]"
  using handleDeleteMember_cascade [of 1 "sampleDb [sampleMember] tickingClock
      \<lparr>payments := [samplePayment 1 1 1704067200000, samplePayment 2 2 1704067200000]\<rparr>"]
  by (simp add: handleDeleteMember_def sampleDb_def samplePayment_def membersGet_def
      sampleMember_def)

section \<open>Monthly revenue: the range\<close>

text \<open>
  \<open>getMonthlyRevenue\<close> sums the amounts of the payments dated from the first instant of the
  month up to, and not including, 23:59:59.000 of its last day.
\<close>

lemma foldl_amount: "foldl (\<lambda>total p. total + amount p) a ps = a + sum_list (map amount ps)"
  by (induction ps arbitrary: a) simp_all

lemma getMonthlyRevenue_sum:
  "getMonthlyRevenue z year month s =
     sum_list (map amount (filter
       (\<lambda>p. newDate z year (month - 1) 1 0 0 0 \<le> paymentDate p
            \<and> paymentDate p < newDate z year month 0 23 59 59) (payments s)))"
  by (simp add: getMonthlyRevenue_def between_def foldl_amount Let_def)

lemma january_bounds:
  "newDate (fixedZone 0) 2024 (1 - 1) 1 0 0 0 = 1704067200000"
  "newDate (fixedZone 0) 2024 1 0 23 59 59 = 1706745599000"
  by (simp_all add: newDate_def MakeDay_def MakeDate_def MakeTime_def DayFromYear_def
      DaysInYear_def monthStart_def msPerDay_def)

text \<open>
  Claim C9 says that a payment dated at any instant of the last day of the month is
  counted. A payment of 1500 dated 2024-01-31 23:59:59.500 is the only payment stored;
  the revenue computed for January 2024 is 0.
\<close>

theorem getMonthlyRevenue_last_second:
  "ymd (fixedZone 0) 1706745599500 = (2024, 0, 31)
   \<and> timeOfDay (fixedZone 0) 1706745599500 = MakeTime 23 59 59 500
   \<and> getMonthlyRevenue (fixedZone 0) 2024 1
       (sampleDb [] tickingClock\<lparr>payments := [samplePayment 1 1 1706745599500]\<rparr>) = 0
   \<and> amount (samplePayment 1 1 1706745599500) = 1500"
proof -
  have "ymd (fixedZone 0) 1706745599500 = (2024, 0, 31)"
    by (simp add: ymd_def calendar_eval)
  moreover have "timeOfDay (fixedZone 0) 1706745599500 = MakeTime 23 59 59 500"
    by (simp add: timeOfDay_def TimeWithinDay_def MakeTime_def msPerDay_def)
  moreover have "getMonthlyRevenue (fixedZone 0) 2024 1
       (sampleDb [] tickingClock\<lparr>payments := [samplePayment 1 1 1706745599500]\<rparr>) = 0"
    unfolding getMonthlyRevenue_sum using january_bounds
    by (simp add: sampleDb_def samplePayment_def)
  ultimately show ?thesis
    by (simp add: samplePayment_def)
qed

section \<open>Refreshing the stored statuses: frame and idempotence\<close>

lemma statusUpdate_members:
  "members (membersUpdate key (noMods\<lparr>mod_status := Some st\<rparr>) s) =
     map (\<lambda>x. if id_member x = key then x\<lparr>status := st\<rparr> else x) (members s)"
proof (cases "membersGet s key")
  case None
  then have "\<forall>x\<in>set (members s). id_member x \<noteq> key"
    by (simp add: membersGet_def find_None_iff)
  then have "map (\<lambda>x. if id_member x = key then x\<lparr>status := st\<rparr> else x) (members s)
      = members s"
    by (intro map_idI) auto
  with None show ?thesis
    by (simp add: membersUpdate_def)
next
  case (Some m)
  then show ?thesis
    by (simp add: membersUpdate_def membersUpdatingHook_def applyMods_def noMods_def split_def
        Let_def)
qed

lemma statusUpdate_frame:
  "payments (membersUpdate key (noMods\<lparr>mod_status := Some st\<rparr>) s) = payments s"
  "checkIns (membersUpdate key (noMods\<lparr>mod_status := Some st\<rparr>) s) = checkIns s"
  "clock (membersUpdate key (noMods\<lparr>mod_status := Some st\<rparr>) s) = clock s"
  by (simp_all add: membersUpdate_def membersUpdatingHook_def noMods_def split_def Let_def
      split: option.split)

lemma updateLoop_frame:
  "payments (updateLoop ms s) = payments s"
  "checkIns (updateLoop ms s) = checkIns s"
  "clock (updateLoop ms s) = clock s"
  by (induction ms arbitrary: s; simp add: split_def Let_def statusUpdate_frame)+

lemma updateLoop_erase:
  "map eraseStatus (members (updateLoop ms s)) = map eraseStatus (members s)"
proof (induction ms arbitrary: s)
  case Nil
  show ?case by simp
next
  case (Cons x ms)
  have "map eraseStatus (map (\<lambda>y. if id_member y = key then y\<lparr>status := st\<rparr> else y) xs)
      = map eraseStatus xs" for key st xs
    by (induction xs) (simp_all add: eraseStatus_def)
  then show ?case
    by (simp add: split_def Let_def Cons.IH statusUpdate_members)
qed

lemma updateLoop_append: "updateLoop (xs @ ys) s = updateLoop ys (updateLoop xs s)"
  by (induction xs arbitrary: s) (simp_all add: split_def Let_def)

lemma updateLoop_other_ids:
  assumes "\<forall>x\<in>set ms. id_member x \<noteq> id_member m"
    and "i < length (members s)" and "members s ! i = m"
  shows "members (updateLoop ms s) ! i = m"
  using assms
proof (induction ms arbitrary: s)
  case Nil
  then show ?case by simp
next
  case (Cons x ms)
  let ?st = "calculateMemberStatus (renewalDate x) (clock s (ticks s))"
  let ?s1 = "s\<lparr>ticks := Suc (ticks s)\<rparr>"
  let ?s2 = "membersUpdate (id_member x) (noMods\<lparr>mod_status := Some ?st\<rparr>) ?s1"
  have ne: "id_member x \<noteq> id_member m" and rest: "\<forall>y\<in>set ms. id_member y \<noteq> id_member m"
    using Cons.prems(1) by simp_all
  have "members (updateLoop ms ?s1) ! i = m"
    using rest Cons.prems(2,3) by (intro Cons.IH) simp_all
  moreover have "members ?s2 ! i = m" and "i < length (members ?s2)"
    using Cons.prems(2,3) ne by (simp_all add: statusUpdate_members)
  then have "members (updateLoop ms ?s2) ! i = m"
    using rest by (intro Cons.IH) simp_all
  ultimately show ?case
    by (simp add: split_def Let_def)
qed

lemma updateLoop_length: "length (members (updateLoop ms s)) = length (members s)"
  using arg_cong [OF updateLoop_erase [of ms s], of length] by simp

text \<open>
  The reading of the clock that the loop takes for a member is the one at the number of
  readings taken while the members before it were processed. A member whose stored status
  equals the status derived at that reading is not written.
\<close>

lemma updateLoop_fresh_untouched:
  assumes split: "ms = pre @ m # post"
    and ids: "distinct (map id_member ms)"
    and fresh: "status m = calculateMemberStatus (renewalDate m) (clock s (ticks (updateLoop pre s)))"
    and i: "i < length (members s)" "members s ! i = m"
  shows "members (updateLoop ms s) ! i = m"
proof -
  let ?s1 = "updateLoop pre s"
  let ?s2 = "updateLoop [m] ?s1"
  have pre: "\<forall>x\<in>set pre. id_member x \<noteq> id_member m"
    and post: "\<forall>x\<in>set post. id_member x \<noteq> id_member m"
    using ids unfolding split by (auto simp add: image_iff)
  have r1: "members ?s1 ! i = m" and l1: "i < length (members ?s1)"
    using updateLoop_other_ids [OF pre i] i(1) by (simp_all add: updateLoop_length)
  have "?s2 = ?s1\<lparr>ticks := Suc (ticks ?s1)\<rparr>"
    using fresh by (simp add: split_def Let_def updateLoop_frame)
  then have r2: "members ?s2 ! i = m" and l2: "i < length (members ?s2)"
    using r1 l1 by simp_all
  have "updateLoop ms s = updateLoop post ?s2"
    unfolding split by (simp only: updateLoop_append append_Cons [symmetric] append_Nil
        [symmetric]) (simp add: updateLoop_append [symmetric])
  then show ?thesis
    using updateLoop_other_ids [OF post l2 r2] by simp
qed

lemma id_refresh [simp]: "id_member (refresh n m) = id_member m"
  by (simp add: refresh_def)

lemma refresh_idem [simp]: "refresh n (refresh n m) = refresh n m"
  by (simp add: refresh_def)

lemma updateLoop_refresh:
  assumes "\<forall>k. clock s k = n"
    and "distinct (map id_member (members s))"
    and "distinct (map id_member ms)"
    and "set ms \<subseteq> set (members s)"
  shows "members (updateLoop ms s) = map (\<lambda>r. if r \<in> set ms then refresh n r else r) (members s)"
  using assms
proof (induction ms arbitrary: s)
  case Nil
  then show ?case by simp
next
  case (Cons x ms)
  let ?st = "calculateMemberStatus (renewalDate x) n"
  let ?s1 = "s\<lparr>ticks := Suc (ticks s)\<rparr>"
  have clk: "clock s (ticks s) = n"
    using Cons.prems(1) by simp
  have x_in: "x \<in> set (members s)" and ms_in: "set ms \<subseteq> set (members s)"
    using Cons.prems(4) by simp_all
  have x_notin: "\<forall>y\<in>set ms. id_member y \<noteq> id_member x" and dms: "distinct (map id_member ms)"
    using Cons.prems(3) by (auto simp add: image_iff)
  have inj: "inj_on id_member (set (members s))"
    using Cons.prems(2) by (simp add: distinct_map)
  show ?case
  proof (cases "status x = ?st")
    case True
    then have rx: "refresh n x = x"
      by (simp add: refresh_def)
    have "members (updateLoop ms ?s1) =
        map (\<lambda>r. if r \<in> set ms then refresh n r else r) (members ?s1)"
      using Cons.prems(1,2) dms ms_in by (intro Cons.IH) simp_all
    also have "\<dots> = map (\<lambda>r. if r \<in> set (x # ms) then refresh n r else r) (members s)"
      using rx by (intro map_cong) auto
    finally show ?thesis
      using True by (simp add: split_def Let_def clk)
  next
    case False
    then have rx: "refresh n x = x\<lparr>status := ?st\<rparr>"
      by (simp add: refresh_def)
    let ?s2 = "membersUpdate (id_member x) (noMods\<lparr>mod_status := Some ?st\<rparr>) ?s1"
    have iff: "id_member r = id_member x \<longleftrightarrow> r = x" if "r \<in> set (members s)" for r
      using inj x_in that by (auto dest: inj_onD)
    have m2: "members ?s2 = map (\<lambda>r. if r = x then refresh n x else r) (members s)"
      using Cons.prems(1) by (simp add: statusUpdate_members rx iff cong: map_cong)
    have ids2: "map id_member (members ?s2) = map id_member (members s)"
      unfolding m2 by (induction "members s") simp_all
    have in2: "set ms \<subseteq> set (members ?s2)"
    proof
      fix y assume y: "y \<in> set ms"
      then have "y \<noteq> x" "y \<in> set (members s)"
        using x_notin ms_in by auto
      then show "y \<in> set (members ?s2)"
        unfolding m2 by (auto simp add: image_iff)
    qed
    have "members (updateLoop ms ?s2) =
        map (\<lambda>r. if r \<in> set ms then refresh n r else r) (members ?s2)"
      using Cons.prems(1,2) dms in2 by (intro Cons.IH) (simp_all add: statusUpdate_frame ids2)
    also have "\<dots> = map (\<lambda>r. if r \<in> set (x # ms) then refresh n r else r) (members s)"
    proof -
      have "refresh n x \<notin> set ms"
        using x_notin by (metis id_refresh)
      then show ?thesis
        unfolding m2 by (simp add: comp_def cong: if_cong)
    qed
    finally show ?thesis
      using False by (simp add: split_def Let_def clk)
  qed
qed

lemma updateMemberStatuses_refresh:
  assumes "\<forall>k. clock s k = n" and "distinct (map id_member (members s))"
  shows "members (updateMemberStatuses s) = map (refresh n) (members s)"
proof -
  have "distinct (map id_member (sort_key fullName (members s)))"
    using assms(2) by (simp add: distinct_map)
  then have "members (updateLoop (sort_key fullName (members s)) s) =
      map (\<lambda>r. if r \<in> set (sort_key fullName (members s)) then refresh n r else r) (members s)"
    using assms by (intro updateLoop_refresh) simp_all
  also have "\<dots> = map (refresh n) (members s)"
    by (intro map_cong) simp_all
  finally show ?thesis
    by (simp add: updateMemberStatuses_def getAllMembers_def)
qed

text \<open>
  Claim C10. In a database whose member keys are distinct, \<open>updateMemberStatuses\<close> changes
  no field of a member other than \<open>status\<close> (the hook's \<open>updatedAt\<close> is not stored, so the
  change stays within the status and \<open>updatedAt\<close> fields), and no payment or check-in. A
  member whose stored status equals the status derived from its renewal date at the
  reading of the clock that the loop takes for it, which is the reading after those taken
  for the members before it in the order of processing, is left exactly as it was,
  \<open>updatedAt\<close> included. When every reading of the clock is the same instant, one run
  refreshes the status of every member and a second run leaves the tables as the first
  run left them.
\<close>

theorem updateMemberStatuses_frame_idempotent:
  assumes "distinct (map id_member (members s))"
  shows "map eraseStatus (members (updateMemberStatuses s)) = map eraseStatus (members s)
    \<and> payments (updateMemberStatuses s) = payments s
    \<and> checkIns (updateMemberStatuses s) = checkIns s
    \<and> (\<forall>pre m post i.
          getAllMembers s = pre @ m # post
          \<and> status m = calculateMemberStatus (renewalDate m) (clock s (ticks (updateLoop pre s)))
          \<and> i < length (members s) \<and> members s ! i = m
          \<longrightarrow> members (updateMemberStatuses s) ! i = m)
    \<and> ((\<forall>k. clock s k = n) \<longrightarrow>
          members (updateMemberStatuses s) = map (refresh n) (members s)
        \<and> tables (updateMemberStatuses (updateMemberStatuses s))
            = tables (updateMemberStatuses s))"
proof (intro conjI allI impI)
  show "map eraseStatus (members (updateMemberStatuses s)) = map eraseStatus (members s)"
    by (simp add: updateMemberStatuses_def updateLoop_erase)
  show P: "payments (updateMemberStatuses s) = payments s"
    and C: "checkIns (updateMemberStatuses s) = checkIns s"
    by (simp_all add: updateMemberStatuses_def updateLoop_frame)
next
  fix pre m post i
  assume h: "getAllMembers s = pre @ m # post
      \<and> status m = calculateMemberStatus (renewalDate m) (clock s (ticks (updateLoop pre s)))
      \<and> i < length (members s) \<and> members s ! i = m"
  have ids: "distinct (map id_member (getAllMembers s))"
    using assms by (simp add: getAllMembers_def distinct_map)
  from h show "members (updateMemberStatuses s) ! i = m"
    unfolding updateMemberStatuses_def
    by (intro updateLoop_fresh_untouched [where pre = pre and post = post] ids) simp_all
next
  assume const: "\<forall>k. clock s k = n"
  show R: "members (updateMemberStatuses s) = map (refresh n) (members s)"
    using const assms by (rule updateMemberStatuses_refresh)
  have clk: "\<forall>k. clock (updateMemberStatuses s) k = n"
    using const by (simp add: updateMemberStatuses_def updateLoop_frame)
  have ids: "distinct (map id_member (members (updateMemberStatuses s)))"
    using assms by (simp add: R comp_def)
  have "members (updateMemberStatuses (updateMemberStatuses s))
      = map (refresh n) (members (updateMemberStatuses s))"
    using clk ids by (rule updateMemberStatuses_refresh)
  also have "\<dots> = members (updateMemberStatuses s)"
    by (simp add: R)
  finally show "tables (updateMemberStatuses (updateMemberStatuses s))
      = tables (updateMemberStatuses s)"
    by (simp add: tables_def updateMemberStatuses_def updateLoop_frame)
qed

lemma name_order: "''Amina Otieno'' \<le> ''Brian Mwangi''"
  by code_simp

lemma sample_order:
  "getAllMembers (sampleDb [lapsedMember, otherMember] clk) = [lapsedMember] @ otherMember # []"
proof -
  have "fullName lapsedMember \<le> fullName otherMember"
    using name_order by (simp add: sampleMember_def lapsedMember_def otherMember_def)
  then show ?thesis
    by (simp add: getAllMembers_def sampleDb_def)
qed

lemma sample_reading:
  "clock (sampleDb [lapsedMember, otherMember] tickingClock)
     (ticks (updateLoop [lapsedMember] (sampleDb [lapsedMember, otherMember] tickingClock)))
   = 1707000000002"
proof -
  let ?T = "sampleDb [lapsedMember, otherMember] tickingClock"
  have d: "daysDiff 1706745600000 1707000000000 = -2"
    by (simp add: daysDiff_def)
  have st: "calculateMemberStatus (renewalDate lapsedMember) (clock ?T (ticks ?T)) = Due"
    "status lapsedMember = Active"
    by (simp_all add: calculateMemberStatus_def sampleDb_def tickingClock_def lapsedMember_def
        sampleMember_def d)
  have g: "membersGet (?T\<lparr>ticks := Suc (ticks ?T)\<rparr>) (id_member lapsedMember) = Some lapsedMember"
    by (simp add: membersGet_def sampleDb_def)
  have "ticks (updateLoop [lapsedMember] ?T) = 2"
    using st g
    by (simp add: split_def Let_def membersUpdate_def membersUpdatingHook_def noMods_def
        sampleDb_def)
  then show ?thesis
    by (simp add: sampleDb_def tickingClock_def)
qed

theorem updateMemberStatuses_frame_idempotent_witness:
  "distinct (map id_member (members (sampleDb [lapsedMember, otherMember] tickingClock)))
   \<and> getAllMembers (sampleDb [lapsedMember, otherMember] tickingClock)
       = [lapsedMember] @ otherMember # []
   \<and> status otherMember = calculateMemberStatus (renewalDate otherMember) 1707000000002
   \<and> members (updateMemberStatuses (sampleDb [lapsedMember, otherMember] tickingClock)) ! 1
       = otherMember
   \<and> members (updateMemberStatuses (sampleDb [lapsedMember, otherMember] (\<lambda>k. 1707000000000)))
       = [lapsedMember\<lparr>status := Due\<rparr>, otherMember]
   \<and> tables (updateMemberStatuses (updateMemberStatuses
         (sampleDb [lapsedMember, otherMember] (\<lambda>k. 1707000000000))))
       = tables (updateMemberStatuses (sampleDb [lapsedMember, otherMember] (\<lambda>k. 1707000000000)))"
proof -
  let ?T = "sampleDb [lapsedMember, otherMember] tickingClock"
  let ?D = "sampleDb [lapsedMember, otherMember] (\<lambda>k. 1707000000000)"
  have d: "distinct (map id_member (members ?T))" "distinct (map id_member (members ?D))"
    by (simp_all add: sampleDb_def sampleMember_def lapsedMember_def otherMember_def)
  have c: "\<forall>k. clock ?D k = 1707000000000"
    by (simp add: sampleDb_def)
  have dd: "daysDiff 1706745600000 1707000000000 = -2" "daysDiff 1704067200000 1707000000000 = -33"
    "daysDiff 1704067200000 1707000000002 = -33"
    by (simp_all add: daysDiff_def)
  have f: "status otherMember = calculateMemberStatus (renewalDate otherMember) 1707000000002"
    by (simp add: calculateMemberStatus_def sampleMember_def otherMember_def dd)
  have i: "1 < length (members ?T)" "members ?T ! 1 = otherMember"
    by (simp_all add: sampleDb_def)
  have r: "map (refresh 1707000000000) (members ?D) = [lapsedMember\<lparr>status := Due\<rparr>, otherMember]"
    by (simp add: sampleDb_def refresh_def calculateMemberStatus_def sampleMember_def
        lapsedMember_def otherMember_def dd)
  note thmT = updateMemberStatuses_frame_idempotent [OF d(1), of 0]
  note untouched = thmT [THEN conjunct2, THEN conjunct2, THEN conjunct2, THEN conjunct1,
      rule_format, of "[lapsedMember]" otherMember "[]" 1]
  have u: "members (updateMemberStatuses ?T) ! 1 = otherMember"
  proof (rule untouched, intro conjI)
    show "getAllMembers ?T = [lapsedMember] @ otherMember # []"
      by (rule sample_order)
    show "status otherMember = calculateMemberStatus (renewalDate otherMember)
        (clock ?T (ticks (updateLoop [lapsedMember] ?T)))"
      unfolding sample_reading by (rule f)
    show "1 < length (members ?T)" and "members ?T ! 1 = otherMember"
      by (rule i)+
  qed
  note thmD = updateMemberStatuses_frame_idempotent [OF d(2), of 1707000000000]
  note const = thmD [THEN conjunct2, THEN conjunct2, THEN conjunct2, THEN conjunct2,
      THEN mp, OF c]
  have m: "members (updateMemberStatuses ?D) = [lapsedMember\<lparr>status := Due\<rparr>, otherMember]"
    using const r by simp
  have t: "tables (updateMemberStatuses (updateMemberStatuses ?D))
      = tables (updateMemberStatuses ?D)"
    using const by simp
  show ?thesis
    by (intro conjI d(1) sample_order f u m t)
qed

end
